theory Spec2Isabelle
  imports Main "HOL-Library.Word"
begin

section \<open>Bytes, decimal output and clock arithmetic\<close>

type_synonym byte = "8 word"

text \<open>
  The value of an unsigned field as \<open>n\<close> bytes, least significant byte first, and the
  value read back from such bytes. Both programs of the repository run on little-endian
  hosts (the Raspberry Pi and the receiving computer); \<open>memcpy\<close> of a struct copies its
  fields in host byte order.
\<close>

fun le_bytes :: "nat \<Rightarrow> nat \<Rightarrow> byte list" where
  "le_bytes 0 v = []"
| "le_bytes (Suc n) v = of_nat (v mod 256) # le_bytes n (v div 256)"

fun le_value :: "byte list \<Rightarrow> nat" where
  "le_value [] = 0"
| "le_value (b # bs) = unat b + 256 * le_value bs"

text \<open>
  \<open>operator<<\<close> of an integer on a \<open>std::ostream\<close>: decimal digits, a leading minus
  sign for a negative value.
\<close>

definition digit_char :: "nat \<Rightarrow> char" where
  "digit_char d = ''0123456789'' ! (d mod 10)"

fun show_nat :: "nat \<Rightarrow> string" where
  "show_nat n = (if n < 10 then [digit_char n] else show_nat (n div 10) @ [digit_char (n mod 10)])"

declare show_nat.simps [simp del]

definition show_int :: "int \<Rightarrow> string" where
  "show_int i = (if i < 0 then CHR ''-'' # show_nat (nat (- i)) else show_nat (nat i))"

text \<open>
  \<open>std::chrono::duration_cast\<close> from a finer to a coarser integer tick count divides by
  the number of fine ticks \<open>per\<close> coarse tick; the quotient of C++ integer division is
  rounded towards zero.
\<close>

definition duration_cast :: "int \<Rightarrow> int \<Rightarrow> int" where
  "duration_cast per ticks = (if ticks < 0 then - ((- ticks) div per) else ticks div per)"

text \<open>
  The difference of two readings of \<open>steady_clock\<close> is a signed 64-bit count of
  nanoseconds; a difference outside that range wraps around.
\<close>

definition int64 :: "int \<Rightarrow> int" where
  "int64 x = (x + 2 ^ 63) mod 2 ^ 64 - 2 ^ 63"

text \<open>Nanoseconds to whole seconds and to whole milliseconds.\<close>

definition duration_cast_seconds :: "int \<Rightarrow> int" where
  "duration_cast_seconds ns = duration_cast 1000000000 ns"

definition duration_cast_milliseconds :: "int \<Rightarrow> int" where
  "duration_cast_milliseconds ns = duration_cast 1000000 ns"


section \<open>The layout of \<open>struct NetworkFrame\<close>\<close>

text \<open>
  \<open>rpi_streamer.cpp\<close>, lines 13-20:
  \<^verbatim>\<open>
  struct NetworkFrame {
      uint32_t frame_id;
      uint64_t timestamp;
      uint16_t width, height;
      uint32_t rgb_size;
      uint32_t depth_size;
  };
  \<close>
\<close>

record NetworkFrame =
  frame_id :: "32 word"
  timestamp :: "64 word"
  width :: "16 word"
  height :: "16 word"
  rgb_size :: "32 word"
  depth_size :: "32 word"

text \<open>
  The program copies the header with \<open>memcpy(packet.data(), &header, sizeof(NetworkFrame))\<close>,
  so what goes on the wire is the object representation of the struct. The declaration
  carries no packing attribute; where the members sit is decided by the alignment of
  the member types on the platform the program is compiled for. That alignment is a
  parameter of the model, together with the contents of the padding bytes, which the
  program never writes (\<open>header\<close> is an uninitialised local whose members are assigned
  one by one).
\<close>

datatype ctype = U16 | U32 | U64

fun size_of :: "ctype \<Rightarrow> nat" where
  "size_of U16 = 2"
| "size_of U32 = 4"
| "size_of U64 = 8"

record platform =
  alignof :: "ctype \<Rightarrow> nat"
  padding :: "nat \<Rightarrow> byte"

text \<open>The next offset at or after \<open>off\<close> that is a multiple of the alignment \<open>a\<close>.\<close>

definition align_up :: "nat \<Rightarrow> nat \<Rightarrow> nat" where
  "align_up off a = (if a \<le> 1 then off else ((off + a - 1) div a) * a)"

text \<open>
  The usual struct layout rule: each member at the next offset aligned for its type, in
  declaration order; the struct is aligned as its most aligned member and its size is
  rounded up to that alignment.
\<close>

fun end_offset :: "platform \<Rightarrow> nat \<Rightarrow> ctype list \<Rightarrow> nat" where
  "end_offset P off [] = off"
| "end_offset P off (t # ts) = end_offset P (align_up off (alignof P t) + size_of t) ts"

definition struct_align :: "platform \<Rightarrow> ctype list \<Rightarrow> nat" where
  "struct_align P ts = fold max (map (alignof P) ts) 1"

definition sizeof_struct :: "platform \<Rightarrow> ctype list \<Rightarrow> nat" where
  "sizeof_struct P ts = align_up (end_offset P 0 ts) (struct_align P ts)"

text \<open>Padding bytes from offset \<open>a\<close> up to offset \<open>b\<close>.\<close>

definition pad_bytes :: "platform \<Rightarrow> nat \<Rightarrow> nat \<Rightarrow> byte list" where
  "pad_bytes P a b = map (padding P) [a..<b]"

fun place_fields :: "platform \<Rightarrow> nat \<Rightarrow> (ctype \<times> nat) list \<Rightarrow> byte list" where
  "place_fields P off [] = []"
| "place_fields P off ((t, v) # fs) =
     pad_bytes P off (align_up off (alignof P t)) @ le_bytes (size_of t) v
       @ place_fields P (align_up off (alignof P t) + size_of t) fs"

definition object_bytes :: "platform \<Rightarrow> (ctype \<times> nat) list \<Rightarrow> byte list" where
  "object_bytes P fs =
     place_fields P 0 fs
       @ pad_bytes P (end_offset P 0 (map fst fs)) (sizeof_struct P (map fst fs))"

definition NetworkFrame_members :: "ctype list" where
  "NetworkFrame_members = [U32, U64, U16, U16, U32, U32]"

definition NetworkFrame_fields :: "NetworkFrame \<Rightarrow> (ctype \<times> nat) list" where
  "NetworkFrame_fields h =
     [(U32, unat (frame_id h)), (U64, unat (timestamp h)),
      (U16, unat (width h)), (U16, unat (height h)),
      (U32, unat (rgb_size h)), (U32, unat (depth_size h))]"

text \<open>\<open>sizeof(NetworkFrame)\<close> and the bytes \<open>memcpy\<close> reads from \<open>&header\<close>.\<close>

definition sizeof_NetworkFrame :: "platform \<Rightarrow> nat" where
  "sizeof_NetworkFrame P = sizeof_struct P NetworkFrame_members"

definition header_bytes :: "platform \<Rightarrow> NetworkFrame \<Rightarrow> byte list" where
  "header_bytes P h = object_bytes P (NetworkFrame_fields h)"

text \<open>
  Two platforms. Natural alignment (every integer type aligned to its size) is what the
  64-bit and 32-bit ARM procedure call standards of the Raspberry Pi and x86-64 use. The
  second aligns \<open>uint64_t\<close> members to 4 bytes, as the ABI of 32-bit x86 Linux does.
\<close>

definition natural_alignment :: "platform" where
  "natural_alignment = \<lparr>alignof = size_of, padding = (\<lambda>_. 0)\<rparr>"

definition four_byte_alignment :: "platform" where
  "four_byte_alignment = \<lparr>alignof = (\<lambda>t. min 4 (size_of t)), padding = (\<lambda>_. 0)\<rparr>"


section \<open>The streaming program \<open>rpi_streamer.cpp\<close>\<close>

subsection \<open>Frames and the environment\<close>

text \<open>
  What the program reads from a \<open>rs2::video_frame\<close>: \<open>get_width()\<close>, \<open>get_height()\<close>
  (both \<open>int\<close>) and \<open>get_data()\<close>; \<open>get_data_size()\<close>, an \<open>int\<close>, is the number of
  bytes at \<open>get_data()\<close>, here the length of the list.
\<close>

record video_frame =
  get_width :: int
  get_height :: int
  get_data :: "byte list"

text \<open>
  A frameset answers \<open>get_color_frame()\<close> and \<open>get_depth_frame()\<close>; a frame that is
  missing tests false (\<open>!color\<close>), here \<open>None\<close>.
\<close>

record frameset =
  get_color_frame :: "video_frame option"
  get_depth_frame :: "video_frame option"

text \<open>A call into librealsense returns or throws \<open>rs2::error\<close> with a message.\<close>

datatype 'a rs2 = Returns 'a | Throws string

text \<open>
  Everything the outside world answers during one pass of the \<open>while (true)\<close> loop:
  the result of \<open>pipe.wait_for_frames()\<close>, the tick count of
  \<open>high_resolution_clock::now()\<close>, the return value of \<open>sendto\<close> and the reading of
  \<open>steady_clock::now()\<close> in nanoseconds. A pass that does not reach a call does not
  look at its answer.
\<close>

record stream_env =
  wait_for_frames :: "frameset rs2"
  high_resolution_now :: int
  sendto_result :: int
  steady_now :: int

text \<open>
  What the programs do that can be observed from outside. \<open>Cout\<close> and \<open>Cerr\<close> hold
  the text one output statement writes; line ends are not recorded, and the pictographs
  that start some lines of \<open>10s-save.cpp\<close> are left out. \<open>Progress_update\<close> stands for
  the progress line of that program with the frame count and the elapsed milliseconds
  it shows. The calls \<open>setsockopt\<close> and \<open>inet_pton\<close>, whose results the program
  ignores, are not recorded.
\<close>

datatype event =
    Cout string
  | Cerr string
  | Perror string
  | Sendto "byte list"
  | Close_socket
  | Create_directory string
  | Stbi_write_png string
  | Metadata_to_csv string
  | Progress_update int int

text \<open>
  The variables that live across passes of the loop (lines 71-73). \<open>frame_count\<close> is a
  \<open>uint32_t\<close> and wraps; \<open>fps_counter\<close> is an \<open>int\<close> that is set back to 0 at every
  report and is an unbounded integer here, as is the frame counter of \<open>10s-save.cpp\<close>,
  which runs for ten seconds.
\<close>

record stream_state =
  frame_count :: "32 word"
  last_fps_time :: int
  fps_counter :: int

subsection \<open>Building the packet (lines 83-105)\<close>

text \<open>
  The frame pair that goes into one packet: the counter value, the clock reading and
  the two frames. Only the colour frame's dimensions are used.
\<close>

record FramePair =
  fp_frame_id :: "32 word"
  fp_timestamp :: "64 word"
  fp_width :: int
  fp_height :: int
  color_buffer :: "byte list"
  depth_buffer :: "byte list"

definition frame_pair :: "32 word \<Rightarrow> int \<Rightarrow> video_frame \<Rightarrow> video_frame \<Rightarrow> FramePair" where
  "frame_pair n now color depth =
     \<lparr>fp_frame_id = n, fp_timestamp = word_of_int now,
      fp_width = get_width color, fp_height = get_height color,
      color_buffer = get_data color, depth_buffer = get_data depth\<rparr>"

text \<open>
  Lines 83-90. The assignments convert \<open>int\<close> to \<open>uint16_t\<close> and \<open>uint32_t\<close>, which
  keeps the low bits.
\<close>

definition make_header :: "FramePair \<Rightarrow> NetworkFrame" where
  "make_header f =
     \<lparr>frame_id = fp_frame_id f, timestamp = fp_timestamp f,
      width = word_of_int (fp_width f), height = word_of_int (fp_height f),
      rgb_size = word_of_int (int (length (color_buffer f))),
      depth_size = word_of_int (int (length (depth_buffer f)))\<rparr>"

text \<open>
  Line 93. \<open>size_t\<close> arithmetic on \<open>sizeof\<close> and two 32-bit values; with a 64-bit
  \<open>size_t\<close> the sum cannot wrap, and with a 32-bit one it cannot for buffers that fit
  the address space, so it is a natural number here.
\<close>

definition total_size :: "platform \<Rightarrow> NetworkFrame \<Rightarrow> nat" where
  "total_size P h = sizeof_NetworkFrame P + unat (rgb_size h) + unat (depth_size h)"

text \<open>
  Lines 94-105: a vector of \<open>total_size\<close> bytes, the header copied to its start,
  \<open>rgb_size\<close> bytes of colour data after it, \<open>depth_size\<close> bytes of depth data after those.
\<close>

definition encode :: "platform \<Rightarrow> FramePair \<Rightarrow> byte list" where
  "encode P f =
     (let header = make_header f in
      header_bytes P header
        @ take (unat (rgb_size header)) (color_buffer f)
        @ take (unat (depth_size header)) (depth_buffer f))"

subsection \<open>One pass of the loop (lines 76-128)\<close>

text \<open>
  Lines 76-90: wait for a frameset, skip it when a frame is missing, otherwise take the
  counter value and the clock reading and step the counter. \<open>Inl\<close> is the
  \<open>rs2::error\<close> thrown by \<open>wait_for_frames\<close>, \<open>Inr None\<close> the \<open>continue\<close> of line 80.
\<close>

definition prepare_frame ::
  "stream_state \<Rightarrow> stream_env \<Rightarrow> string + (FramePair \<times> stream_state) option" where
  "prepare_frame s e =
     (case wait_for_frames e of
        Throws msg \<Rightarrow> Inl msg
      | Returns frames \<Rightarrow>
          (case (get_color_frame frames, get_depth_frame frames) of
             (Some color, Some depth) \<Rightarrow>
               Inr (Some (frame_pair (frame_count s) (high_resolution_now e) color depth,
                          s\<lparr>frame_count := frame_count s + 1\<rparr>))
           | _ \<Rightarrow> Inr None))"

definition fps_line :: "int \<Rightarrow> nat \<Rightarrow> string" where
  "fps_line counter nbytes =
     ''Streaming FPS: '' @ show_int counter @ '' | Frame size: ''
       @ show_nat (nbytes div 1024) @ ''KB''"

text \<open>
  Lines 120-128, after the send: the counter is stepped and, when the difference of the
  steady clock readings is at least one whole second, reported and set back.
\<close>

definition fps_monitoring :: "stream_state \<Rightarrow> int \<Rightarrow> nat \<Rightarrow> stream_state \<times> event list" where
  "fps_monitoring s now nbytes =
     (let counter = fps_counter s + 1 in
      if duration_cast_seconds (int64 (now - last_fps_time s)) \<ge> 1
      then (s\<lparr>fps_counter := 0, last_fps_time := now\<rparr>, [Cout (fps_line counter nbytes)])
      else (s\<lparr>fps_counter := counter\<rparr>, []))"

text \<open>Lines 113-118: the send and the test of its result.\<close>

definition send_packet :: "int \<Rightarrow> byte list \<Rightarrow> event list" where
  "send_packet sent packet =
     Sendto packet # (if sent < 0 then [Perror ''sendto''] else [])"

text \<open>
  The body of the loop. \<open>Inl\<close> is an \<open>rs2::error\<close> leaving the loop; \<open>Inr\<close> is the
  state at the start of the next pass and what this pass did. Line 108 is the size
  check; its branch ends the pass with \<open>continue\<close>.
\<close>

definition stream_iteration ::
  "platform \<Rightarrow> stream_state \<Rightarrow> stream_env \<Rightarrow> string + (stream_state \<times> event list)" where
  "stream_iteration P s e =
     (case prepare_frame s e of
        Inl msg \<Rightarrow> Inl msg
      | Inr None \<Rightarrow> Inr (s, [])
      | Inr (Some (f, s1)) \<Rightarrow>
          (let header = make_header f;
               packet = encode P f
           in if total_size P header > 65507
              then Inr (s1, [Cout ''Warning: Frame too large for single UDP packet''])
              else (case fps_monitoring s1 (steady_now e) (total_size P header) of
                      (s2, report) \<Rightarrow>
                        Inr (s2, send_packet (sendto_result e) packet @ report))))"

text \<open>
  The loop over the answers of the environment. It has no exit of its own: it ends
  with the \<open>rs2::error\<close> a pass throws (\<open>Some\<close>), and when the listed answers are used
  up it is still waiting for the next frameset (\<open>None\<close>). The result is what the loop
  did, how it ended and the state it reached.
\<close>

fun stream_loop ::
  "platform \<Rightarrow> stream_state \<Rightarrow> stream_env list \<Rightarrow> event list \<times> string option \<times> stream_state"
  where
  "stream_loop P s [] = ([], None, s)"
| "stream_loop P s (e # es) =
     (case stream_iteration P s e of
        Inl msg \<Rightarrow> ([], Some msg, s)
      | Inr (s', out) \<Rightarrow>
          (case stream_loop P s' es of (out', r, s'') \<Rightarrow> (out @ out', r, s'')))"

subsection \<open>Stabilization and \<open>main\<close>\<close>

datatype 'a progress = Thrown string | Waiting | Finished 'a

text \<open>
  Line 69: \<open>for (int i = 0; i < 30; ++i) pipe.wait_for_frames();\<close>. Each pass takes one
  answer of the device and drops it; the clock and \<open>sendto\<close> are not consulted.
\<close>

fun stabilization :: "nat \<Rightarrow> stream_env list \<Rightarrow> stream_env list progress" where
  "stabilization 0 es = Finished es"
| "stabilization (Suc n) [] = Waiting"
| "stabilization (Suc n) (e # es) =
     (case wait_for_frames e of Throws msg \<Rightarrow> Thrown msg | Returns _ \<Rightarrow> stabilization n es)"

record main_env =
  argc :: int
  computer_ip :: string
  socket_result :: int
  pipe_start :: "unit rs2"
  first_steady_now :: int
  device :: "stream_env list"

text \<open>Lines 131-136: the handler, and the \<open>close(sock)\<close> that follows the \<open>try\<close> block.\<close>

definition catch_rs2 :: "string \<Rightarrow> event list" where
  "catch_rs2 msg = [Cerr (''RealSense error: '' @ msg), Close_socket]"

definition started :: "main_env \<Rightarrow> event" where
  "started env =
     Cout (''RealSense started - streaming to '' @ computer_ip env @ '':'' @ show_int 9999)"

text \<open>
  Lines 71-136: the loop from its initial state, then the handler. The second component
  is the value \<open>main\<close> returns, \<open>None\<close> while the loop is still running.
\<close>

definition streaming :: "platform \<Rightarrow> main_env \<Rightarrow> stream_env list \<Rightarrow> event list \<times> int option" where
  "streaming P env es =
     (case stream_loop P
             \<lparr>frame_count = 0, last_fps_time = first_steady_now env, fps_counter = 0\<rparr> es of
        (out, Some msg, _) \<Rightarrow> (out @ catch_rs2 msg, Some 0)
      | (out, None, _) \<Rightarrow> (out, None))"

text \<open>\<open>main\<close> (lines 30-137): what it does and the value it returns.\<close>

definition rpi_streamer_main :: "platform \<Rightarrow> main_env \<Rightarrow> event list \<times> int option" where
  "rpi_streamer_main P env =
     (if argc env \<noteq> 2 then ([Cout ''Usage: ./rpi_streamer <computer_ip>''], Some (- 1))
      else if socket_result env < 0 then ([Perror ''socket''], Some (- 1))
      else (case pipe_start env of
              Throws msg \<Rightarrow> (catch_rs2 msg, Some 0)
            | Returns _ \<Rightarrow>
               (case stabilization 30 (device env) of
                  Thrown msg \<Rightarrow> (started env # catch_rs2 msg, Some 0)
                | Waiting \<Rightarrow> ([started env], None)
                | Finished rest \<Rightarrow>
                    (case streaming P env rest of (out, r) \<Rightarrow> (started env # out, r)))))"


section \<open>The persistence program \<open>10s-save.cpp\<close>\<close>

text \<open>
  \<open>create_filename\<close> (lines 150-157). \<open>std::setfill('0') << std::setw(6)\<close> pads the
  next item, the frame number, on the left with zeros up to six characters; the width
  is reset after that item, so the timestamp is written as it is.
\<close>

definition setw_setfill :: "nat \<Rightarrow> char \<Rightarrow> string \<Rightarrow> string" where
  "setw_setfill w c str = replicate (w - length str) c @ str"

definition create_filename :: "string \<Rightarrow> string \<Rightarrow> int \<Rightarrow> int \<Rightarrow> string \<Rightarrow> string" where
  "create_filename base_dir stream_name frame_number timestamp_ms extension =
     base_dir @ ''/frame_'' @ setw_setfill 6 CHR ''0'' (show_int frame_number)
       @ ''_'' @ show_int timestamp_ms @ ''_'' @ stream_name @ extension"

text \<open>
  What the loop asks of a frame of the frameset: whether it is a video frame
  (\<open>frame.as<rs2::video_frame>()\<close>) and the stream it belongs to.
\<close>

datatype rs2_stream =
    RS2_STREAM_ANY | RS2_STREAM_DEPTH | RS2_STREAM_COLOR | RS2_STREAM_INFRARED
  | RS2_STREAM_FISHEYE | RS2_STREAM_GYRO | RS2_STREAM_ACCEL | RS2_STREAM_GPIO
  | RS2_STREAM_POSE | RS2_STREAM_CONFIDENCE

record frame =
  is_video_frame :: bool
  stream_type :: rs2_stream

text \<open>
  Lines 89-119: the files written for one frame. The pixel data and the metadata
  values are not part of the model; a write is recorded with the name of its file.
\<close>

definition save_frame :: "int \<Rightarrow> int \<Rightarrow> frame \<Rightarrow> event list" where
  "save_frame n ts frame =
     (if is_video_frame frame then
        (if stream_type frame = RS2_STREAM_COLOR then
           [Stbi_write_png (create_filename ''captured_data/rgb'' ''color'' n ts ''.png''),
            Metadata_to_csv
              (create_filename ''captured_data/metadata'' ''color'' n ts ''_metadata.csv'')]
         else if stream_type frame = RS2_STREAM_DEPTH then
           [Stbi_write_png (create_filename ''captured_data/depth'' ''depth'' n ts ''.png''),
            Stbi_write_png
              (create_filename ''captured_data/depth'' ''depth_colorized'' n ts ''.png''),
            Metadata_to_csv
              (create_filename ''captured_data/metadata'' ''depth'' n ts ''_metadata.csv'')]
         else [])
      else [])"

text \<open>
  The answers of the outside world during one pass of the capture loop: the reading of
  \<open>high_resolution_clock::now()\<close> in nanoseconds, the milliseconds since the epoch of
  \<open>system_clock::now()\<close>, and the result of \<open>pipe.wait_for_frames()\<close>.
\<close>

record capture_env =
  current_time :: int
  system_clock_ms :: int
  wait_frames :: "frame list rs2"

text \<open>
  One pass that did not reach the time limit and got its frameset (lines 79-127):
  the timestamp was taken before the wait, the counter is stepped once, and every frame
  of the frameset is saved under that pair. The progress line shows the counter and the
  elapsed milliseconds (its floating-point rendering is not modelled).
\<close>

definition capture_iteration :: "int \<Rightarrow> int \<Rightarrow> int \<Rightarrow> frame list \<Rightarrow> int \<times> event list" where
  "capture_iteration elapsed n ts frames =
     (let n' = n + 1 in
      (n', concat (map (save_frame n' ts) frames)
             @ (if n' mod 30 = 0 then [Progress_update n' elapsed] else [])))"

text \<open>
  The capture loop (lines 69-128): it breaks when ten seconds have passed since
  \<open>start_time\<close> and gives the number of framesets taken.
\<close>

fun capture_loop :: "int \<Rightarrow> int \<Rightarrow> capture_env list \<Rightarrow> event list \<times> int progress" where
  "capture_loop start_time n [] = ([], Waiting)"
| "capture_loop start_time n (e # es) =
     (let elapsed = duration_cast_milliseconds (current_time e - start_time) in
      if elapsed \<ge> 10000 then ([], Finished n)
      else (case wait_frames e of
              Throws msg \<Rightarrow> ([], Thrown msg)
            | Returns frames \<Rightarrow>
                (case capture_iteration elapsed n (system_clock_ms e) frames of
                   (n', out) \<Rightarrow>
                     (case capture_loop start_time n' es of (out', r) \<Rightarrow> (out @ out', r)))))"




record save_env =
  save_pipe_start :: "unit rs2"
  start_time :: int
  save_device :: "capture_env list"

text \<open>
  The handler of lines 139-143; the message of the error stands for the failed function,
  its arguments and \<open>e.what()\<close>.
\<close>

definition failure :: "string \<Rightarrow> event list" where
  "failure msg = [Cerr (''RealSense error calling '' @ msg)]"

definition directories :: "event list" where
  "directories =
     [Create_directory ''captured_data'', Create_directory ''captured_data/rgb'',
      Create_directory ''captured_data/depth'', Create_directory ''captured_data/metadata'']"

text \<open>
  Lines 60-137: the capture from frame count 0, the closing lines and \<open>EXIT_SUCCESS\<close>,
  or the handler and \<open>EXIT_FAILURE\<close>.
\<close>

definition capture_start :: "event list" where
  "capture_start =
     [Cout ''Starting 10-second capture...'', Cout ''Saving to captured_data/ folder'']"

definition capture_complete :: "int \<Rightarrow> event list" where
  "capture_complete n =
     [Cout ''Capture complete!'',
      Cout (''Total frames captured: '' @ show_int n),
      Cout ''Files saved to captured_data/ folder'',
      Cout ''   - captured_data/rgb/ (color frames)'',
      Cout ''   - captured_data/depth/ (depth frames + colorized)'',
      Cout ''   - captured_data/metadata/ (frame metadata)'']"

definition capturing :: "save_env \<Rightarrow> capture_env list \<Rightarrow> event list \<times> int option" where
  "capturing env es =
     (case capture_loop (start_time env) 0 es of
        (out, Thrown msg) \<Rightarrow> (capture_start @ out @ failure msg, Some 1)
      | (out, Waiting) \<Rightarrow> (capture_start @ out, None)
      | (out, Finished n) \<Rightarrow> (capture_start @ out @ capture_complete n, Some 0))"




section \<open>The receiving side\<close>

datatype decode_error = CorruptPacket

text \<open>
  Modelled from the spec: the decoder of an unfragmented packet, which the source files
  do not contain. The spec gives the wire format as
  \<open>frame_id:u32 | timestamp:u64 | width:u16 | height:u16 | rgb_size:u32 | depth_size:u32\<close>
  (24 bytes), followed by \<open>rgb_size\<close> bytes of colour pixels and \<open>depth_size\<close> bytes of
  depth samples, and says that \<open>decode\<close> fails with \<open>CorruptPacket\<close> when the declared
  sizes do not match the bytes actually present. The byte order is the one of the
  deployment, least significant byte first as on the sending side.
\<close>

definition decode :: "byte list \<Rightarrow> decode_error + FramePair" where
  "decode packet =
     (if length packet < 24 then Inl CorruptPacket
      else
        (let rgb = le_value (take 4 (drop 16 packet));
             depth = le_value (take 4 (drop 20 packet));
             payload = drop 24 packet
         in if length payload \<noteq> rgb + depth then Inl CorruptPacket
            else Inr \<lparr>fp_frame_id = of_nat (le_value (take 4 packet)),
                      fp_timestamp = of_nat (le_value (take 8 (drop 4 packet))),
                      fp_width = int (le_value (take 2 (drop 12 packet))),
                      fp_height = int (le_value (take 2 (drop 14 packet))),
                      color_buffer = take rgb payload,
                      depth_buffer = drop rgb payload\<rparr>))"


section \<open>Observations and example inputs\<close>

text \<open>The lines written to \<open>std::cout\<close> and the number of bytes handed to \<open>sendto\<close>.\<close>

fun cout_lines :: "event list \<Rightarrow> string list" where
  "cout_lines [] = []"
| "cout_lines (Cout line # evs) = line # cout_lines evs"
| "cout_lines (_ # evs) = cout_lines evs"

fun bytes_sent :: "event list \<Rightarrow> nat" where
  "bytes_sent [] = 0"
| "bytes_sent (Sendto packet # evs) = length packet + bytes_sent evs"
| "bytes_sent (_ # evs) = bytes_sent evs"

text \<open>
  The size of the packet that a pass over the answer \<open>e\<close> hands to \<open>sendto\<close>;
  \<open>None\<close> when the pass does not reach the send (the wait throws, a frame is missing or
  the packet is larger than 65507 bytes). The size does not depend on the loop state.
\<close>

definition sent_size :: "platform \<Rightarrow> stream_env \<Rightarrow> nat option" where
  "sent_size P e =
     (case prepare_frame \<lparr>frame_count = 0, last_fps_time = 0, fps_counter = 0\<rparr> e of
        Inr (Some (f, _)) \<Rightarrow>
          (if total_size P (make_header f) > 65507 then None
           else Some (total_size P (make_header f)))
      | _ \<Rightarrow> None)"

text \<open>
  Inputs for the examples: a frame pair of 2 by 1 pixels, a frameset without its depth
  frame, a frame pair of a single pixel, one of 30 by 20 pixels, and one of the
  configured session (424 by 240 pixels, \<open>RGB8\<close> colour and \<open>Z16\<close> depth, lines
  61-62); an answer of the environment built from a frameset, the clock tick, the result
  of \<open>sendto\<close> and the steady clock reading.
\<close>

definition small_color :: video_frame where
  "small_color = \<lparr>get_width = 2, get_height = 1, get_data = [10, 20, 30, 40, 50, 60]\<rparr>"

definition small_depth :: video_frame where
  "small_depth = \<lparr>get_width = 2, get_height = 1, get_data = [1, 0, 2, 0]\<rparr>"

definition small_frameset :: frameset where
  "small_frameset =
     \<lparr>get_color_frame = Some small_color, get_depth_frame = Some small_depth\<rparr>"

definition color_only_frameset :: frameset where
  "color_only_frameset = \<lparr>get_color_frame = Some small_color, get_depth_frame = None\<rparr>"

definition pixel_frameset :: frameset where
  "pixel_frameset =
     \<lparr>get_color_frame = Some \<lparr>get_width = 1, get_height = 1, get_data = [10, 20, 30]\<rparr>,
      get_depth_frame = Some \<lparr>get_width = 1, get_height = 1, get_data = [1, 0]\<rparr>\<rparr>"

definition medium_frameset :: frameset where
  "medium_frameset =
     \<lparr>get_color_frame =
        Some \<lparr>get_width = 30, get_height = 20, get_data = replicate (30 * 20 * 3) 0\<rparr>,
      get_depth_frame =
        Some \<lparr>get_width = 30, get_height = 20, get_data = replicate (30 * 20 * 2) 0\<rparr>\<rparr>"

definition session_frameset :: frameset where
  "session_frameset =
     \<lparr>get_color_frame =
        Some \<lparr>get_width = 424, get_height = 240, get_data = replicate (424 * 240 * 3) 0\<rparr>,
      get_depth_frame =
        Some \<lparr>get_width = 424, get_height = 240, get_data = replicate (424 * 240 * 2) 0\<rparr>\<rparr>"

definition answer :: "frameset \<Rightarrow> int \<Rightarrow> int \<Rightarrow> int \<Rightarrow> stream_env" where
  "answer fs clock sent steady =
     \<lparr>wait_for_frames = Returns fs, high_resolution_now = clock, sendto_result = sent,
      steady_now = steady\<rparr>"

text \<open>
  A colour and a depth video frame of the persistence program, and an answer of its
  environment holding one of each.
\<close>

definition color_frame :: frame where
  "color_frame = \<lparr>is_video_frame = True, stream_type = RS2_STREAM_COLOR\<rparr>"

definition depth_frame :: frame where
  "depth_frame = \<lparr>is_video_frame = True, stream_type = RS2_STREAM_DEPTH\<rparr>"

definition capture_answer :: "int \<Rightarrow> int \<Rightarrow> capture_env" where
  "capture_answer t ms =
     \<lparr>current_time = t, system_clock_ms = ms, wait_frames = Returns [color_frame, depth_frame]\<rparr>"


section \<open>Evaluation on concrete inputs\<close>

text \<open>
  Rules that unfold the recursive functions on numerals only, so that the simplifier
  evaluates closed terms and leaves open ones alone.
\<close>

lemma le_bytes_numeral:
  "le_bytes (numeral k) v = of_nat (v mod 256) # le_bytes (pred_numeral k) (v div 256)"
proof -
  have "le_bytes (Suc (pred_numeral k)) v
          = of_nat (v mod 256) # le_bytes (pred_numeral k) (v div 256)"
    by (rule le_bytes.simps)
  then show ?thesis by (simp only: numeral_eq_Suc [of k])
qed

lemma replicate_numeral:
  "replicate (numeral k) x = x # replicate (pred_numeral k) x"
proof -
  have "replicate (Suc (pred_numeral k)) x = x # replicate (pred_numeral k) x"
    by (rule replicate_Suc)
  then show ?thesis by (simp only: numeral_eq_Suc [of k])
qed

lemma show_nat_numeral:
  "show_nat (numeral k) =
     (if numeral k < (10::nat) then [digit_char (numeral k)]
      else show_nat (numeral k div 10) @ [digit_char (numeral k mod 10)])"
  by (rule show_nat.simps)

lemma show_nat_small: "show_nat 0 = ''0''" "show_nat 1 = ''1''" "show_nat (Suc 0) = ''1''"
  by (simp_all add: show_nat.simps digit_char_def)

lemmas show_eval = show_int_def show_nat_numeral show_nat_small digit_char_def

lemmas layout_defs = header_bytes_def object_bytes_def NetworkFrame_fields_def
  NetworkFrame_members_def sizeof_NetworkFrame_def sizeof_struct_def struct_align_def
  align_up_def pad_bytes_def natural_alignment_def four_byte_alignment_def

lemmas packet_defs = encode_def make_header_def total_size_def frame_pair_def le_bytes_numeral

lemmas example_defs = small_color_def small_depth_def small_frameset_def pixel_frameset_def
  medium_frameset_def
  session_frameset_def answer_def

lemmas loop_defs = stream_iteration_def prepare_frame_def fps_monitoring_def send_packet_def
  duration_cast_seconds_def duration_cast_def int64_def

lemmas save_defs = replicate_numeral show_eval capturing_def capture_iteration_def
  capture_start_def capture_complete_def
  save_frame_def create_filename_def setw_setfill_def duration_cast_milliseconds_def
  duration_cast_def directories_def color_frame_def depth_frame_def capture_answer_def

lemma sizeof_four_byte: "sizeof_NetworkFrame four_byte_alignment = 24"
  by (simp add: layout_defs)

lemma sizeof_natural: "sizeof_NetworkFrame natural_alignment = 32"
  by (simp add: layout_defs)


section \<open>The size and the contents of the header\<close>

lemma align_up_ge: "off \<le> align_up off a"
proof (cases "a \<le> 1")
  case True
  then show ?thesis by (simp add: align_up_def)
next
  case False
  then have a: "0 < a" by simp
  have "(off + a - 1) mod a < a" using a by simp
  then have "(off + a - 1) mod a \<le> a - 1" by simp
  moreover have "(off + a - 1) div a * a + (off + a - 1) mod a = off + a - 1" by simp
  ultimately have "off \<le> (off + a - 1) div a * a" using a by linarith
  with False show ?thesis by (simp add: align_up_def)
qed

lemma align_up_0: "align_up 0 a = 0"
  by (simp add: align_up_def)

lemma length_le_bytes: "length (le_bytes n v) = n"
  by (induction n arbitrary: v) simp_all

lemma end_offset_ge: "off \<le> end_offset P off ts"
proof (induction ts arbitrary: off)
  case Nil
  show ?case by simp
next
  case (Cons t ts)
  have "off \<le> align_up off (alignof P t) + size_of t"
    using align_up_ge [of off "alignof P t"] by simp
  also have "\<dots> \<le> end_offset P (align_up off (alignof P t) + size_of t) ts"
    by (rule Cons.IH)
  finally show ?case by simp
qed

lemma length_place_fields:
  "length (place_fields P off fs) = end_offset P off (map fst fs) - off"
proof (induction fs arbitrary: off)
  case Nil
  show ?case by simp
next
  case (Cons p fs)
  obtain t v where p: "p = (t, v)" by (cases p)
  let ?o = "align_up off (alignof P t)"
  have "off \<le> ?o" by (rule align_up_ge)
  moreover have "?o + size_of t \<le> end_offset P (?o + size_of t) (map fst fs)"
    by (rule end_offset_ge)
  ultimately show ?case
    by (simp add: p Cons.IH pad_bytes_def length_le_bytes)
qed

lemma length_object_bytes:
  "length (object_bytes P fs) = sizeof_struct P (map fst fs)"
proof -
  have "end_offset P 0 (map fst fs) \<le> sizeof_struct P (map fst fs)"
    by (simp add: sizeof_struct_def align_up_ge)
  then show ?thesis
    by (simp add: object_bytes_def length_place_fields pad_bytes_def)
qed

lemma length_header_bytes: "length (header_bytes P h) = sizeof_NetworkFrame P"
  by (simp add: header_bytes_def length_object_bytes sizeof_NetworkFrame_def
      NetworkFrame_fields_def NetworkFrame_members_def)

text \<open>
  The members alone take 24 bytes; alignment can only add to that.
\<close>

lemma sizeof_NetworkFrame_ge: "24 \<le> sizeof_NetworkFrame P"
proof -
  define o2 where "o2 = align_up (align_up 0 (alignof P U32) + 4) (alignof P U64)"
  define o3 where "o3 = align_up (o2 + 8) (alignof P U16)"
  define o4 where "o4 = align_up (o3 + 2) (alignof P U16)"
  define o5 where "o5 = align_up (o4 + 2) (alignof P U32)"
  define o6 where "o6 = align_up (o5 + 4) (alignof P U32)"
  have e: "end_offset P 0 NetworkFrame_members = o6 + 4"
    by (simp add: NetworkFrame_members_def o2_def o3_def o4_def o5_def o6_def)
  have "4 \<le> o2" unfolding o2_def
    using align_up_ge [of "align_up 0 (alignof P U32) + 4" "alignof P U64"] by simp
  moreover have "o2 + 8 \<le> o3" unfolding o3_def by (rule align_up_ge)
  moreover have "o3 + 2 \<le> o4" unfolding o4_def by (rule align_up_ge)
  moreover have "o4 + 2 \<le> o5" unfolding o5_def by (rule align_up_ge)
  moreover have "o5 + 4 \<le> o6" unfolding o6_def by (rule align_up_ge)
  moreover have "o6 + 4 \<le> sizeof_NetworkFrame P"
    unfolding sizeof_NetworkFrame_def sizeof_struct_def e by (rule align_up_ge)
  ultimately show ?thesis by linarith
qed

text \<open>
  When the struct takes 24 bytes there is no padding at all, and the header is the six
  members back to back.
\<close>

lemma header_bytes_unpadded:
  assumes "sizeof_NetworkFrame P = 24"
  shows "header_bytes P h =
           le_bytes 4 (unat (frame_id h)) @ le_bytes 8 (unat (timestamp h))
             @ le_bytes 2 (unat (width h)) @ le_bytes 2 (unat (height h))
             @ le_bytes 4 (unat (rgb_size h)) @ le_bytes 4 (unat (depth_size h))"
proof -
  define o2 where "o2 = align_up 4 (alignof P U64)"
  define o3 where "o3 = align_up (o2 + 8) (alignof P U16)"
  define o4 where "o4 = align_up (o3 + 2) (alignof P U16)"
  define o5 where "o5 = align_up (o4 + 2) (alignof P U32)"
  define o6 where "o6 = align_up (o5 + 4) (alignof P U32)"
  have e: "end_offset P 0 NetworkFrame_members = o6 + 4"
    by (simp add: NetworkFrame_members_def align_up_0 o2_def o3_def o4_def o5_def o6_def)
  have "4 \<le> o2" unfolding o2_def by (rule align_up_ge)
  moreover have "o2 + 8 \<le> o3" unfolding o3_def by (rule align_up_ge)
  moreover have "o3 + 2 \<le> o4" unfolding o4_def by (rule align_up_ge)
  moreover have "o4 + 2 \<le> o5" unfolding o5_def by (rule align_up_ge)
  moreover have "o5 + 4 \<le> o6" unfolding o6_def by (rule align_up_ge)
  moreover have "o6 + 4 \<le> sizeof_NetworkFrame P"
    unfolding sizeof_NetworkFrame_def sizeof_struct_def e by (rule align_up_ge)
  ultimately have o: "o2 = 4" "o3 = 12" "o4 = 14" "o5 = 16" "o6 = 20"
    using assms by linarith+
  have a: "align_up 4 (alignof P U64) = 4" "align_up 12 (alignof P U16) = 12"
    "align_up 14 (alignof P U16) = 14" "align_up 16 (alignof P U32) = 16"
    "align_up 20 (alignof P U32) = 20"
    using o by (simp_all add: o2_def o3_def o4_def o5_def o6_def)
  have s: "sizeof_struct P NetworkFrame_members = 24"
    using assms by (simp add: sizeof_NetworkFrame_def)
  have m: "map fst (NetworkFrame_fields h) = NetworkFrame_members"
    by (simp add: NetworkFrame_fields_def NetworkFrame_members_def)
  have e': "end_offset P 0 NetworkFrame_members = 24"
    using e o by simp
  have p: "place_fields P 0 (NetworkFrame_fields h) =
           le_bytes 4 (unat (frame_id h)) @ le_bytes 8 (unat (timestamp h))
             @ le_bytes 2 (unat (width h)) @ le_bytes 2 (unat (height h))
             @ le_bytes 4 (unat (rgb_size h)) @ le_bytes 4 (unat (depth_size h))"
    by (simp add: NetworkFrame_fields_def align_up_0 pad_bytes_def a del: le_bytes.simps)
  show ?thesis
    by (simp add: header_bytes_def object_bytes_def m s e' p pad_bytes_def del: le_bytes.simps)
qed

text \<open>
  Under natural alignment \<open>timestamp\<close> is moved to offset 8 and the size is rounded up
  to a multiple of 8: four padding bytes after \<open>frame_id\<close> and four at the end.
\<close>

lemma sizeof_NetworkFrame_natural:
  assumes "alignof P = size_of"
  shows "sizeof_NetworkFrame P = 32"
  using assms
  by (simp add: sizeof_NetworkFrame_def sizeof_struct_def NetworkFrame_members_def
      struct_align_def align_up_def)

lemma header_bytes_natural:
  assumes "alignof P = size_of"
  shows "header_bytes P h =
           le_bytes 4 (unat (frame_id h)) @ pad_bytes P 4 8 @ le_bytes 8 (unat (timestamp h))
             @ le_bytes 2 (unat (width h)) @ le_bytes 2 (unat (height h))
             @ le_bytes 4 (unat (rgb_size h)) @ le_bytes 4 (unat (depth_size h))
             @ pad_bytes P 28 32"
proof -
  have a: "align_up 4 8 = 8" "align_up 16 2 = 16" "align_up 18 2 = 18" "align_up 20 4 = 20"
    "align_up 24 4 = 24" "align_up 28 8 = 32" "pad_bytes P 0 0 = []" "pad_bytes P 16 16 = []"
    "pad_bytes P 18 18 = []" "pad_bytes P 20 20 = []" "pad_bytes P 24 24 = []"
    by (simp_all add: align_up_def pad_bytes_def)
  show ?thesis
    using assms
    by (simp add: header_bytes_def object_bytes_def NetworkFrame_fields_def sizeof_struct_def
        struct_align_def align_up_0 a del: le_bytes.simps)
qed

lemma le_value_le_bytes: "le_value (le_bytes n v) = v mod 256 ^ n"
proof (induction n arbitrary: v)
  case 0
  show ?case by simp
next
  case (Suc n)
  have "unat (of_nat (v mod 256) :: byte) = v mod 256"
    by (simp add: unat_of_nat)
  then have "le_value (le_bytes (Suc n) v) = v mod 256 + 256 * ((v div 256) mod 256 ^ n)"
    by (simp add: Suc.IH)
  also have "\<dots> = v mod 256 ^ Suc n"
    by (simp add: mod_mult2_eq)
  finally show ?case .
qed

lemma encode_whole_buffers:
  assumes "length (color_buffer f) < 2 ^ 32" and "length (depth_buffer f) < 2 ^ 32"
  shows "encode P f = header_bytes P (make_header f) @ color_buffer f @ depth_buffer f"
  using assms by (simp add: encode_def Let_def make_header_def unat_of_nat)

lemma length_encode: "length (encode P f) = total_size P (make_header f)"
proof -
  have "unat (word_of_int (int n) :: 32 word) \<le> n" for n
    by (simp add: unat_of_nat)
  then show ?thesis
    by (simp add: encode_def Let_def total_size_def length_header_bytes make_header_def
        min_absorb2)
qed

lemma decode_fields:
  fixes a b c d e g :: "byte list"
  assumes "length a = 4" "length b = 8" "length c = 2" "length d = 2" "length e = 4" "length g = 4"
  shows "take 4 (a @ b @ c @ d @ e @ g @ rest) = a"
    and "take 8 (drop 4 (a @ b @ c @ d @ e @ g @ rest)) = b"
    and "take 2 (drop 12 (a @ b @ c @ d @ e @ g @ rest)) = c"
    and "take 2 (drop 14 (a @ b @ c @ d @ e @ g @ rest)) = d"
    and "take 4 (drop 16 (a @ b @ c @ d @ e @ g @ rest)) = e"
    and "take 4 (drop 20 (a @ b @ c @ d @ e @ g @ rest)) = g"
    and "drop 24 (a @ b @ c @ d @ e @ g @ rest) = rest"
  using assms by simp_all


section \<open>Properties of the streaming loop\<close>

text \<open>A run over two lists of answers is the run over the first continued over the second.\<close>

lemma stream_loop_append:
  "stream_loop P s (xs @ ys) =
     (case stream_loop P s xs of
        (out, Some msg, s') \<Rightarrow> (out, Some msg, s')
      | (out, None, s') \<Rightarrow>
          (case stream_loop P s' ys of (out', r, s'') \<Rightarrow> (out @ out', r, s'')))"
proof (induction xs arbitrary: s)
  case Nil
  show ?case by (simp split: prod.splits)
next
  case (Cons x xs)
  show ?case
    by (simp add: Cons.IH split: sum.splits prod.splits option.splits)
qed

lemma prepare_frame_skip:
  assumes "wait_for_frames e = Returns fs"
    and "get_color_frame fs = None \<or> get_depth_frame fs = None"
  shows "prepare_frame s e = Inr None"
  using assms by (auto simp: prepare_frame_def split: option.splits)

lemma prepare_frame_SomeD:
  assumes "prepare_frame s e = Inr (Some (f, s1))"
  shows "s1 = s\<lparr>frame_count := frame_count s + 1\<rparr>
       \<and> fp_frame_id f = frame_count s
       \<and> fp_timestamp f = word_of_int (high_resolution_now e)"
  using assms
  by (auto simp: prepare_frame_def frame_pair_def split: rs2.splits option.splits)

lemma fps_monitoring_frame_count:
  "frame_count (fst (fps_monitoring s now n)) = frame_count s"
  by (simp add: fps_monitoring_def Let_def)

lemma fps_monitoring_events:
  "ev \<in> set (snd (fps_monitoring s now n)) \<Longrightarrow> \<exists>line. ev = Cout line"
  by (simp add: fps_monitoring_def Let_def split: if_splits)

lemma stream_iteration_sent:
  assumes "prepare_frame s e = Inr (Some (f, s1))"
    and "total_size P (make_header f) \<le> 65507"
  shows "stream_iteration P s e =
           Inr (fst (fps_monitoring s1 (steady_now e) (total_size P (make_header f))),
                send_packet (sendto_result e) (encode P f)
                  @ snd (fps_monitoring s1 (steady_now e) (total_size P (make_header f))))"
  using assms by (simp add: stream_iteration_def Let_def split: prod.splits)

lemma stream_iteration_oversize:
  assumes "prepare_frame s e = Inr (Some (f, s1))"
    and "65507 < total_size P (make_header f)"
  shows "stream_iteration P s e =
           Inr (s1, [Cout ''Warning: Frame too large for single UDP packet''])"
  using assms by (simp add: stream_iteration_def Let_def)

lemma cout_lines_append: "cout_lines (xs @ ys) = cout_lines xs @ cout_lines ys"
  by (induction xs rule: cout_lines.induct) simp_all

lemma cout_lines_send_packet: "cout_lines (send_packet sent packet) = []"
  by (simp add: send_packet_def)

text \<open>
  The test of line 123: at least one whole second, which for a truncating division is at
  least 1000000000 nanoseconds.
\<close>

lemma duration_cast_seconds_ge_1: "(1 \<le> duration_cast_seconds d) = (1000000000 \<le> d)"
proof (cases "d < 0")
  case True
  then have "0 \<le> (- d) div 1000000000" by simp
  with True show ?thesis by (simp add: duration_cast_seconds_def duration_cast_def)
next
  case False
  have "(0 < d div 1000000000) = (1000000000 \<le> d)"
    by (rule pos_imp_zdiv_pos_iff) simp
  moreover have "(1 \<le> d div 1000000000) = (0 < d div 1000000000)"
    by linarith
  ultimately show ?thesis
    using False by (simp add: duration_cast_seconds_def duration_cast_def)
qed

lemma sent_size_SomeD:
  assumes "sent_size P e = Some n"
  shows "\<exists>f. prepare_frame s e = Inr (Some (f, s\<lparr>frame_count := frame_count s + 1\<rparr>))
           \<and> total_size P (make_header f) = n \<and> n \<le> 65507"
  using assms
  by (auto simp: sent_size_def prepare_frame_def total_size_def make_header_def frame_pair_def
      split: rs2.splits option.splits if_splits)

lemma stream_iteration_counted:
  assumes "sent_size P e = Some n"
  shows "\<exists>packet. stream_iteration P s e =
           Inr (fst (fps_monitoring (s\<lparr>frame_count := frame_count s + 1\<rparr>) (steady_now e) n),
                send_packet (sendto_result e) packet
                  @ snd (fps_monitoring (s\<lparr>frame_count := frame_count s + 1\<rparr>) (steady_now e) n))"
proof -
  from sent_size_SomeD [OF assms, of s] obtain f where
    f: "prepare_frame s e = Inr (Some (f, s\<lparr>frame_count := frame_count s + 1\<rparr>))"
    and n: "total_size P (make_header f) = n" "n \<le> 65507" by blast
  from n have "total_size P (make_header f) \<le> 65507" by simp
  from stream_iteration_sent [OF f this] n show ?thesis by auto
qed

text \<open>
  While less than a second has passed since the last report, passes that reach the send
  only count: nothing is printed and the window start stays.
\<close>

lemma window_open:
  assumes "\<forall>e\<in>set es. sent_size P e \<noteq> None
             \<and> int64 (steady_now e - last_fps_time s) < 1000000000"
  shows "cout_lines (fst (stream_loop P s es)) = []
       \<and> fst (snd (stream_loop P s es)) = None
       \<and> fps_counter (snd (snd (stream_loop P s es))) = fps_counter s + int (length es)
       \<and> last_fps_time (snd (snd (stream_loop P s es))) = last_fps_time s"
  using assms
proof (induction es arbitrary: s)
  case Nil
  show ?case by simp
next
  case (Cons e es)
  from Cons.prems obtain n where n: "sent_size P e = Some n" by auto
  from Cons.prems have early: "\<not> 1000000000 \<le> int64 (steady_now e - last_fps_time s)"
    by simp
  let ?s1 = "s\<lparr>frame_count := frame_count s + 1\<rparr>"
  let ?s2 = "?s1\<lparr>fps_counter := fps_counter s + 1\<rparr>"
  have m: "fps_monitoring ?s1 (steady_now e) n = (?s2, [])"
    using early by (simp add: fps_monitoring_def Let_def duration_cast_seconds_ge_1)
  from stream_iteration_counted [OF n, of s] obtain packet where
    it: "stream_iteration P s e = Inr (?s2, send_packet (sendto_result e) packet)"
    by (auto simp: m)
  have "\<forall>e\<in>set es. sent_size P e \<noteq> None
          \<and> int64 (steady_now e - last_fps_time ?s2) < 1000000000"
    using Cons.prems by simp
  from Cons.IH [OF this] show ?case
    by (auto simp: it cout_lines_append cout_lines_send_packet split: prod.splits)
qed

text \<open>
  Stabilization takes exactly as many answers as its bound and keeps none of them.
\<close>

lemma stabilization_drops:
  "length stab = n \<Longrightarrow> \<forall>e\<in>set stab. \<exists>fs. wait_for_frames e = Returns fs \<Longrightarrow>
   stabilization n (stab @ rest) = Finished rest"
proof (induction stab arbitrary: n)
  case Nil
  then show ?case by simp
next
  case (Cons e stab)
  then obtain m where n: "n = Suc m" and m: "length stab = m" by (cases n) auto
  from Cons.prems obtain fs where fs: "wait_for_frames e = Returns fs" by auto
  from Cons.prems have "\<forall>e\<in>set stab. \<exists>fs. wait_for_frames e = Returns fs" by simp
  with Cons.IH m have "stabilization m (stab @ rest) = Finished rest" by blast
  with n fs show ?case by simp
qed


lemma length_show_nat: "n < 10 ^ Suc k \<Longrightarrow> length (show_nat n) \<le> Suc k"
proof (induction k arbitrary: n)
  case 0
  then show ?case by (simp add: show_nat.simps)
next
  case (Suc k)
  show ?case
  proof (cases "n < 10")
    case True
    then show ?thesis by (simp add: show_nat.simps)
  next
    case False
    from Suc.prems have "n div 10 < 10 ^ Suc k" by (simp add: less_mult_imp_div_less)
    then have "length (show_nat (n div 10)) \<le> Suc k" by (rule Suc.IH)
    with False show ?thesis by (subst show_nat.simps) simp
  qed
qed

lemma frame_number_six_digits:
  assumes "0 \<le> n" and "n < 1000000"
  shows "length (setw_setfill 6 CHR ''0'' (show_int n)) = 6"
proof -
  have "nat n < 10 ^ Suc 5" using assms by simp
  then have "length (show_nat (nat n)) \<le> Suc 5" by (rule length_show_nat)
  with assms show ?thesis by (simp add: setw_setfill_def show_int_def)
qed

lemma save_frame_names:
  assumes "ev \<in> set (save_frame n ts fr)"
  shows "\<exists>dir stream ext. ev = Stbi_write_png (create_filename dir stream n ts ext)
                        \<or> ev = Metadata_to_csv (create_filename dir stream n ts ext)"
  using assms by (auto simp: save_frame_def split: if_splits)

lemma sent_size_small: "sent_size four_byte_alignment (answer small_frameset c r t) = Some 34"
  by (simp add: sent_size_def prepare_frame_def example_defs make_header_def total_size_def
      frame_pair_def sizeof_four_byte)

lemma fps_line_30: "fps_line 30 34 = ''Streaming FPS: 30 | Frame size: 0KB''"
  by (simp add: fps_line_def show_eval)


text \<open>
  The decoder after an encoder that adds no padding: a frame pair whose width and height
  fit 16 bits comes back.
\<close>

lemma round_trip_unpadded:
  assumes "sizeof_NetworkFrame P = 24"
    and "0 \<le> fp_width f" and "fp_width f < 65536"
    and "0 \<le> fp_height f" and "fp_height f < 65536"
    and "sizeof_NetworkFrame P + length (color_buffer f) + length (depth_buffer f) \<le> 65507"
  shows "decode (encode P f) = Inr f"
proof -
  let ?h = "make_header f"
  have c: "length (color_buffer f) < 2 ^ 32" and d: "length (depth_buffer f) < 2 ^ 32"
    using assms(6) by simp_all
  have enc: "encode P f =
      le_bytes 4 (unat (frame_id ?h)) @ le_bytes 8 (unat (timestamp ?h))
        @ le_bytes 2 (unat (width ?h)) @ le_bytes 2 (unat (height ?h))
        @ le_bytes 4 (unat (rgb_size ?h)) @ le_bytes 4 (unat (depth_size ?h))
        @ (color_buffer f @ depth_buffer f)"
    by (simp add: encode_whole_buffers [OF c d] header_bytes_unpadded [OF assms(1)]
        del: le_bytes.simps)
  note fs = decode_fields [of "le_bytes 4 (unat (frame_id ?h))" "le_bytes 8 (unat (timestamp ?h))"
      "le_bytes 2 (unat (width ?h))" "le_bytes 2 (unat (height ?h))"
      "le_bytes 4 (unat (rgb_size ?h))" "le_bytes 4 (unat (depth_size ?h))"
      "color_buffer f @ depth_buffer f", OF length_le_bytes length_le_bytes length_le_bytes
      length_le_bytes length_le_bytes length_le_bytes, folded enc]
  have len: "\<not> length (encode P f) < 24"
    by (simp add: length_encode total_size_def assms(1))
  have v1: "(of_nat (le_value (le_bytes 4 (unat (frame_id ?h)))) :: 32 word) = fp_frame_id f"
  proof -
    have "unat (fp_frame_id f) < 2 ^ 32" using unsigned_less [of "fp_frame_id f"] by simp
    then show ?thesis by (simp add: le_value_le_bytes make_header_def)
  qed
  have v2: "(of_nat (le_value (le_bytes 8 (unat (timestamp ?h)))) :: 64 word) = fp_timestamp f"
  proof -
    have "unat (fp_timestamp f) < 2 ^ 64" using unsigned_less [of "fp_timestamp f"] by simp
    then show ?thesis by (simp add: le_value_le_bytes make_header_def)
  qed
  have v3: "int (le_value (le_bytes 2 (unat (width ?h)))) = fp_width f"
  proof -
    have "unat (word_of_int (fp_width f) :: 16 word) = nat (fp_width f)"
      using assms(2,3) by (simp add: unat_eq_nat_uint uint_word_of_int take_bit_eq_mod)
    moreover have "nat (fp_width f) < 65536" using assms(2,3) by simp
    ultimately show ?thesis using assms(2) by (simp add: le_value_le_bytes make_header_def)
  qed
  have v4: "int (le_value (le_bytes 2 (unat (height ?h)))) = fp_height f"
  proof -
    have "unat (word_of_int (fp_height f) :: 16 word) = nat (fp_height f)"
      using assms(4,5) by (simp add: unat_eq_nat_uint uint_word_of_int take_bit_eq_mod)
    moreover have "nat (fp_height f) < 65536" using assms(4,5) by simp
    ultimately show ?thesis using assms(4) by (simp add: le_value_le_bytes make_header_def)
  qed
  have v5: "le_value (le_bytes 4 (unat (rgb_size ?h))) = length (color_buffer f)"
    using c by (simp add: le_value_le_bytes make_header_def unat_of_nat)
  have v6: "le_value (le_bytes 4 (unat (depth_size ?h))) = length (depth_buffer f)"
    using d by (simp add: le_value_le_bytes make_header_def unat_of_nat)
  show ?thesis
    by (simp add: decode_def Let_def len fs v1 v2 v3 v4 v5 v6 del: le_bytes.simps)
qed

text \<open>What a successful decoding says about the packet.\<close>

lemma decode_InrD:
  assumes "decode p = Inr g"
  shows "24 \<le> length p"
    and "color_buffer g @ depth_buffer g = drop 24 p"
    and "fp_width g = int (le_value (take 2 (drop 12 p)))"
    and "fp_height g = int (le_value (take 2 (drop 14 p)))"
  using assms by (auto simp: decode_def Let_def simp del: drop_drop split: if_splits)

lemma round_trip_needs_24:
  assumes "sizeof_NetworkFrame P + length (color_buffer f) + length (depth_buffer f) \<le> 65507"
    and "decode (encode P f) = Inr f"
  shows "sizeof_NetworkFrame P = 24"
proof -
  have c: "length (color_buffer f) < 2 ^ 32" and d: "length (depth_buffer f) < 2 ^ 32"
    using assms(1) by simp_all
  have "length (encode P f)
          = sizeof_NetworkFrame P + length (color_buffer f) + length (depth_buffer f)"
    by (simp add: encode_whole_buffers [OF c d] length_header_bytes)
  moreover have "length (color_buffer f @ depth_buffer f) = length (drop 24 (encode P f))"
    using decode_InrD(2) [OF assms(2)] by simp
  moreover have "24 \<le> length (encode P f)"
    using decode_InrD(1) [OF assms(2)] .
  ultimately show ?thesis by simp
qed

lemma sixteen_bit_value:
  "int (le_value (le_bytes 2 (unat (word_of_int w :: 16 word)))) = w mod 65536"
proof -
  have "unat (word_of_int w :: 16 word) < 65536"
    using unsigned_less [of "word_of_int w :: 16 word"] by simp
  then have "le_value (le_bytes 2 (unat (word_of_int w :: 16 word)))
               = unat (word_of_int w :: 16 word)"
    by (simp add: le_value_le_bytes)
  moreover have "int (unat (word_of_int w :: 16 word)) = w mod 65536"
    by (simp add: uint_word_of_int take_bit_eq_mod)
  ultimately show ?thesis by simp
qed

lemma round_trip_needs_16_bits:
  assumes "sizeof_NetworkFrame P + length (color_buffer f) + length (depth_buffer f) \<le> 65507"
    and "decode (encode P f) = Inr f"
  shows "0 \<le> fp_width f \<and> fp_width f < 65536 \<and> 0 \<le> fp_height f \<and> fp_height f < 65536"
proof -
  let ?h = "make_header f"
  have s: "sizeof_NetworkFrame P = 24" using assms by (rule round_trip_needs_24)
  have c: "length (color_buffer f) < 2 ^ 32" and d: "length (depth_buffer f) < 2 ^ 32"
    using assms(1) by simp_all
  have enc: "encode P f =
      le_bytes 4 (unat (frame_id ?h)) @ le_bytes 8 (unat (timestamp ?h))
        @ le_bytes 2 (unat (width ?h)) @ le_bytes 2 (unat (height ?h))
        @ le_bytes 4 (unat (rgb_size ?h)) @ le_bytes 4 (unat (depth_size ?h))
        @ (color_buffer f @ depth_buffer f)"
    by (simp add: encode_whole_buffers [OF c d] header_bytes_unpadded [OF s]
        del: le_bytes.simps)
  note fs = decode_fields [of "le_bytes 4 (unat (frame_id ?h))" "le_bytes 8 (unat (timestamp ?h))"
      "le_bytes 2 (unat (width ?h))" "le_bytes 2 (unat (height ?h))"
      "le_bytes 4 (unat (rgb_size ?h))" "le_bytes 4 (unat (depth_size ?h))"
      "color_buffer f @ depth_buffer f", OF length_le_bytes length_le_bytes length_le_bytes
      length_le_bytes length_le_bytes length_le_bytes, folded enc]
  have "fp_width f = fp_width f mod 65536"
    using decode_InrD(3) [OF assms(2)] sixteen_bit_value [of "fp_width f"]
    by (simp add: fs make_header_def del: le_bytes.simps)
  moreover have "fp_height f = fp_height f mod 65536"
    using decode_InrD(4) [OF assms(2)] sixteen_bit_value [of "fp_height f"]
    by (simp add: fs make_header_def del: le_bytes.simps)
  moreover have "0 \<le> fp_width f mod 65536" "fp_width f mod 65536 < 65536"
    "0 \<le> fp_height f mod 65536" "fp_height f mod 65536 < 65536"
    by simp_all
  ultimately show ?thesis by presburger
qed

text \<open>A difference in the range of a signed 64-bit integer is not changed.\<close>

lemma int64_id:
  assumes "- (2 ^ 63) \<le> x" and "x < 2 ^ 63"
  shows "int64 x = x"
proof -
  have "0 \<le> x + 2 ^ 63" and "x + 2 ^ 63 < 2 ^ 64" using assms by simp_all
  then have "(x + 2 ^ 63) mod 2 ^ 64 = x + 2 ^ 63" by simp
  then show ?thesis by (simp add: int64_def)
qed

text \<open>
  The pass that closes the window: the first at which a whole second has passed since
  the last report prints the count, this pass included, and the size of its packet.
\<close>

lemma window_closes:
  assumes "\<forall>e\<in>set es. sent_size P e \<noteq> None
             \<and> int64 (steady_now e - last_fps_time s) < 1000000000"
    and "sent_size P e = Some n"
    and "1000000000 \<le> int64 (steady_now e - last_fps_time s)"
  shows "cout_lines (fst (stream_loop P s (es @ [e])))
           = [fps_line (fps_counter s + int (length es) + 1) n]
       \<and> fst (snd (stream_loop P s (es @ [e]))) = None
       \<and> fps_counter (snd (snd (stream_loop P s (es @ [e])))) = 0
       \<and> last_fps_time (snd (snd (stream_loop P s (es @ [e])))) = steady_now e"
proof -
  obtain out s' where r: "stream_loop P s es = (out, None, s')"
    using window_open [OF assms(1)] by (cases "stream_loop P s es") auto
  from window_open [OF assms(1)] r have w: "cout_lines out = []"
    "fps_counter s' = fps_counter s + int (length es)" "last_fps_time s' = last_fps_time s"
    by simp_all
  let ?s1 = "s'\<lparr>frame_count := frame_count s' + 1\<rparr>"
  have m: "fps_monitoring ?s1 (steady_now e) n =
             (?s1\<lparr>fps_counter := 0, last_fps_time := steady_now e\<rparr>,
              [Cout (fps_line (fps_counter s + int (length es) + 1) n)])"
    using assms(3) w by (simp add: fps_monitoring_def Let_def duration_cast_seconds_ge_1)
  from stream_iteration_counted [OF assms(2), of s'] obtain packet where
    it: "stream_iteration P s' e =
           Inr (?s1\<lparr>fps_counter := 0, last_fps_time := steady_now e\<rparr>,
                send_packet (sendto_result e) packet
                  @ [Cout (fps_line (fps_counter s + int (length es) + 1) n)])"
    by (auto simp: m)
  show ?thesis
    by (simp add: stream_loop_append r it w cout_lines_append cout_lines_send_packet)
qed


text \<open>
  Thirty packets one thirtieth of a second apart, the last of them exactly one second
  after the start of the window, and thirty-one of them starting at the start of the
  window.
\<close>

lemma uniform_thirty:
  assumes "fps_counter s = 0" and "length es = 30"
    and "\<forall>k<30. sent_size P (es ! k) \<noteq> None
           \<and> steady_now (es ! k) = last_fps_time s + (int k + 1) * 1000000000 div 30"
  shows "cout_lines (fst (stream_loop P s es)) = [fps_line 30 (the (sent_size P (es ! 29)))]
       \<and> cout_lines (fst (stream_loop P s (take 29 es))) = []"
proof -
  have split: "es = take 29 es @ [es ! 29]"
    using assms(2) by (simp add: take_Suc_conv_app_nth [of 29 es, symmetric])
  have early: "\<forall>e\<in>set (take 29 es). sent_size P e \<noteq> None
                 \<and> int64 (steady_now e - last_fps_time s) < 1000000000"
  proof
    fix e
    assume "e \<in> set (take 29 es)"
    then obtain k where k: "k < 29" and e: "e = es ! k"
      using assms(2) by (auto simp: in_set_conv_nth)
    from k assms(3) have sz: "sent_size P e \<noteq> None"
      and t: "steady_now e - last_fps_time s = (int k + 1) * 1000000000 div 30"
      by (simp_all add: e)
    have "0 \<le> (int k + 1) * 1000000000 div 30" by simp
    moreover have "(int k + 1) * 1000000000 div 30 < 1000000000" using k by simp
    ultimately have "int64 (steady_now e - last_fps_time s) < 1000000000"
      by (simp add: t int64_id)
    with sz show "sent_size P e \<noteq> None
                 \<and> int64 (steady_now e - last_fps_time s) < 1000000000" ..
  qed
  have last: "sent_size P (es ! 29) \<noteq> None
      \<and> steady_now (es ! 29) = last_fps_time s + (int 29 + 1) * 1000000000 div 30"
    using assms(3) [rule_format, of 29] by simp
  then obtain n where n: "sent_size P (es ! 29) = Some n" by auto
  from last have "steady_now (es ! 29) - last_fps_time s = 1000000000" by simp
  then have late: "1000000000 \<le> int64 (steady_now (es ! 29) - last_fps_time s)"
    by (simp add: int64_id)
  from window_closes [OF early n late] assms(1,2)
  have "cout_lines (fst (stream_loop P s (take 29 es @ [es ! 29]))) = [fps_line 30 n]"
    by simp
  with split n window_open [OF early] show ?thesis by simp
qed

lemma uniform_thirty_one:
  assumes "fps_counter s = 0" and "length es = 31"
    and "\<forall>k<31. sent_size P (es ! k) \<noteq> None
           \<and> steady_now (es ! k) = last_fps_time s + int k * 1000000000 div 30"
  shows "cout_lines (fst (stream_loop P s es)) = [fps_line 31 (the (sent_size P (es ! 30)))]
       \<and> cout_lines (fst (stream_loop P s (take 30 es))) = []"
proof -
  have split: "es = take 30 es @ [es ! 30]"
    using assms(2) by (simp add: take_Suc_conv_app_nth [of 30 es, symmetric])
  have early: "\<forall>e\<in>set (take 30 es). sent_size P e \<noteq> None
                 \<and> int64 (steady_now e - last_fps_time s) < 1000000000"
  proof
    fix e
    assume "e \<in> set (take 30 es)"
    then obtain k where k: "k < 30" and e: "e = es ! k"
      using assms(2) by (auto simp: in_set_conv_nth)
    from k assms(3) have sz: "sent_size P e \<noteq> None"
      and t: "steady_now e - last_fps_time s = int k * 1000000000 div 30"
      by (simp_all add: e)
    have "0 \<le> int k * 1000000000 div 30" by simp
    moreover have "int k * 1000000000 div 30 < 1000000000" using k by simp
    ultimately have "int64 (steady_now e - last_fps_time s) < 1000000000"
      by (simp add: t int64_id)
    with sz show "sent_size P e \<noteq> None
                 \<and> int64 (steady_now e - last_fps_time s) < 1000000000" ..
  qed
  have last: "sent_size P (es ! 30) \<noteq> None
      \<and> steady_now (es ! 30) = last_fps_time s + int 30 * 1000000000 div 30"
    using assms(3) [rule_format, of 30] by simp
  then obtain n where n: "sent_size P (es ! 30) = Some n" by auto
  from last have "steady_now (es ! 30) - last_fps_time s = 1000000000" by simp
  then have late: "1000000000 \<le> int64 (steady_now (es ! 30) - last_fps_time s)"
    by (simp add: int64_id)
  from window_closes [OF early n late] assms(1,2)
  have "cout_lines (fst (stream_loop P s (take 30 es @ [es ! 30]))) = [fps_line 31 n]"
    by simp
  with split n window_open [OF early] show ?thesis by simp
qed


section \<open>The claims\<close>

subsection \<open>C1: one packet or none\<close>

text \<open>
  Claim C1 says that a frame pair too large for one datagram is split into ordered
  fragments, at least 8 of them for the 424 by 240 session. The program has no
  fragmentation: for the frame pair of the session it sends nothing at all.
\<close>

theorem oversize_frame_counterexample:
  "stream_iteration natural_alignment
     \<lparr>frame_count = 0, last_fps_time = 0, fps_counter = 0\<rparr>
     \<lparr>wait_for_frames =
        Returns \<lparr>get_color_frame =
                   Some \<lparr>get_width = 424, get_height = 240,
                         get_data = replicate (424 * 240 * 3) 0\<rparr>,
                 get_depth_frame =
                   Some \<lparr>get_width = 424, get_height = 240,
                         get_data = replicate (424 * 240 * 2) 0\<rparr>\<rparr>,
      high_resolution_now = 1000, sendto_result = 0, steady_now = 1000\<rparr>
   = Inr (\<lparr>frame_count = 1, last_fps_time = 0, fps_counter = 0\<rparr>,
          [Cout ''Warning: Frame too large for single UDP packet''])"
  by (simp add: stream_iteration_def prepare_frame_def make_header_def total_size_def
      frame_pair_def sizeof_natural Let_def)

text \<open>
  Claim C1, as amended. For every frame pair the pass hands exactly one datagram, the
  whole packet of \<open>sizeof(NetworkFrame) + rgb_size + depth_size\<close> bytes, to \<open>sendto\<close>
  when that size is at most 65507; otherwise it sends nothing, prints a warning and goes
  on with the frame counter stepped, so an oversize frame is dropped whole and never
  truncated. A 424 by 240 frame pair with 3-byte colour pixels and 2-byte depth samples
  is always oversize.
\<close>

theorem single_packet_or_dropped:
  assumes "prepare_frame s e = Inr (Some (f, s1))"
  shows "(total_size P (make_header f) \<le> 65507 \<longrightarrow>
            stream_iteration P s e =
              Inr (fst (fps_monitoring s1 (steady_now e) (total_size P (make_header f))),
                   Sendto (encode P f)
                     # (if sendto_result e < 0 then [Perror ''sendto''] else [])
                     @ snd (fps_monitoring s1 (steady_now e) (total_size P (make_header f))))
          \<and> length (encode P f) = total_size P (make_header f)
          \<and> (\<forall>p. Sendto p
                 \<notin> set (snd (fps_monitoring s1 (steady_now e) (total_size P (make_header f))))))
       \<and> (65507 < total_size P (make_header f) \<longrightarrow>
            stream_iteration P s e =
              Inr (s1, [Cout ''Warning: Frame too large for single UDP packet'']))
       \<and> (length (color_buffer f) = 424 * 240 * 3 \<and> length (depth_buffer f) = 424 * 240 * 2
            \<longrightarrow> 65507 < total_size P (make_header f))"
proof -
  let ?n = "total_size P (make_header f)"
  let ?m = "fps_monitoring s1 (steady_now e) ?n"
  have sent: "stream_iteration P s e =
      Inr (fst ?m, Sendto (encode P f)
                     # (if sendto_result e < 0 then [Perror ''sendto''] else []) @ snd ?m)"
    if "?n \<le> 65507"
    using stream_iteration_sent [OF assms that] by (simp add: send_packet_def)
  have none: "Sendto p \<notin> set (snd ?m)" for p
    using fps_monitoring_events [of "Sendto p" s1 "steady_now e" ?n] by auto
  have dropped: "stream_iteration P s e =
      Inr (s1, [Cout ''Warning: Frame too large for single UDP packet''])"
    if "65507 < ?n"
    using assms that by (rule stream_iteration_oversize)
  have session: "65507 < ?n"
    if "length (color_buffer f) = 424 * 240 * 3 \<and> length (depth_buffer f) = 424 * 240 * 2"
  proof -
    have "?n = sizeof_NetworkFrame P + 424 * 240 * 3 + 424 * 240 * 2"
      using that by (simp add: total_size_def make_header_def)
    then show ?thesis by simp
  qed
  from sent none dropped session length_encode [of P f] show ?thesis by blast
qed

theorem single_packet_or_dropped_witness:
  "stream_iteration four_byte_alignment \<lparr>frame_count = 7, last_fps_time = 0, fps_counter = 0\<rparr>
     (answer small_frameset 2 10 500)
   = Inr (\<lparr>frame_count = 8, last_fps_time = 0, fps_counter = 1\<rparr>,
          [Sendto [7, 0, 0, 0,  2, 0, 0, 0, 0, 0, 0, 0,  2, 0,  1, 0,  6, 0, 0, 0,  4, 0, 0, 0,
                   10, 20, 30, 40, 50, 60,  1, 0, 2, 0]])
   \<and> stream_iteration four_byte_alignment
       \<lparr>frame_count = 7, last_fps_time = 0, fps_counter = 0\<rparr> (answer session_frameset 2 10 500)
   = Inr (\<lparr>frame_count = 8, last_fps_time = 0, fps_counter = 0\<rparr>,
          [Cout ''Warning: Frame too large for single UDP packet''])"
  using
    single_packet_or_dropped [of "\<lparr>frame_count = 7, last_fps_time = 0, fps_counter = 0\<rparr>"
      "answer small_frameset 2 10 500"
      "\<lparr>fp_frame_id = 7, fp_timestamp = 2, fp_width = 2, fp_height = 1,
        color_buffer = [10, 20, 30, 40, 50, 60], depth_buffer = [1, 0, 2, 0]\<rparr>"
      "\<lparr>frame_count = 8, last_fps_time = 0, fps_counter = 0\<rparr>" four_byte_alignment]
    single_packet_or_dropped [of "\<lparr>frame_count = 7, last_fps_time = 0, fps_counter = 0\<rparr>"
      "answer session_frameset 2 10 500"
      "\<lparr>fp_frame_id = 7, fp_timestamp = 2, fp_width = 424, fp_height = 240,
        color_buffer = replicate (424 * 240 * 3) 0, depth_buffer = replicate (424 * 240 * 2) 0\<rparr>"
      "\<lparr>frame_count = 8, last_fps_time = 0, fps_counter = 0\<rparr>" four_byte_alignment]
  by (simp add: example_defs prepare_frame_def fps_monitoring_def duration_cast_seconds_def
      duration_cast_def int64_def layout_defs packet_defs Let_def upt_rec)

subsection \<open>C2: the header in front of the payload\<close>

text \<open>
  Claim C2 says that the header takes exactly 24 bytes. Under natural alignment the
  packet starts with 32 bytes of header: the payload \<open>10, 20, ...\<close> begins at offset 32.
\<close>

theorem header_size_counterexample:
  "encode natural_alignment
        \<lparr>fp_frame_id = 1, fp_timestamp = 2, fp_width = 2, fp_height = 1,
         color_buffer = [10, 20, 30, 40, 50, 60], depth_buffer = [1, 0, 2, 0]\<rparr>
   = [1, 0, 0, 0,  0, 0, 0, 0,  2, 0, 0, 0, 0, 0, 0, 0,  2, 0,  1, 0,  6, 0, 0, 0,
      4, 0, 0, 0,  0, 0, 0, 0,  10, 20, 30, 40, 50, 60,  1, 0, 2, 0]"
  by (simp add: layout_defs packet_defs Let_def upt_rec)

text \<open>
  Claim C2, as amended. The packet is the in-memory image of \<open>NetworkFrame\<close>, of
  \<open>sizeof(NetworkFrame)\<close> bytes, immediately followed by \<open>rgb_size\<close> bytes of colour
  pixels and then \<open>depth_size\<close> bytes of depth samples. The image holds the members
  \<open>frame_id\<close>, \<open>timestamp\<close>, \<open>width\<close>, \<open>height\<close>, \<open>rgb_size\<close>, \<open>depth_size\<close> in
  that order; it is never shorter than 24 bytes, it is the 24 bytes of the members
  exactly when the platform adds no padding, and under natural alignment it is 32 bytes
  long, with four padding bytes after \<open>frame_id\<close> and four at the end.
\<close>

theorem packet_layout:
  assumes "length (color_buffer f) < 2 ^ 32" and "length (depth_buffer f) < 2 ^ 32"
  shows "encode P f = header_bytes P (make_header f) @ color_buffer f @ depth_buffer f
       \<and> length (header_bytes P (make_header f)) = sizeof_NetworkFrame P
       \<and> unat (rgb_size (make_header f)) = length (color_buffer f)
       \<and> unat (depth_size (make_header f)) = length (depth_buffer f)
       \<and> 24 \<le> sizeof_NetworkFrame P
       \<and> (sizeof_NetworkFrame P = 24 \<longrightarrow>
            header_bytes P h =
              le_bytes 4 (unat (frame_id h)) @ le_bytes 8 (unat (timestamp h))
                @ le_bytes 2 (unat (width h)) @ le_bytes 2 (unat (height h))
                @ le_bytes 4 (unat (rgb_size h)) @ le_bytes 4 (unat (depth_size h)))
       \<and> (alignof P = size_of \<longrightarrow>
            sizeof_NetworkFrame P = 32
            \<and> header_bytes P h =
                le_bytes 4 (unat (frame_id h)) @ pad_bytes P 4 8
                  @ le_bytes 8 (unat (timestamp h))
                  @ le_bytes 2 (unat (width h)) @ le_bytes 2 (unat (height h))
                  @ le_bytes 4 (unat (rgb_size h)) @ le_bytes 4 (unat (depth_size h))
                  @ pad_bytes P 28 32)"
proof -
  have "unat (rgb_size (make_header f)) = length (color_buffer f)"
    and "unat (depth_size (make_header f)) = length (depth_buffer f)"
    using assms by (simp_all add: make_header_def unat_of_nat)
  with encode_whole_buffers [OF assms] length_header_bytes sizeof_NetworkFrame_ge
    header_bytes_unpadded sizeof_NetworkFrame_natural header_bytes_natural
  show ?thesis by blast
qed

theorem packet_layout_witness:
  "encode four_byte_alignment
        \<lparr>fp_frame_id = 1, fp_timestamp = 2, fp_width = 2, fp_height = 1,
         color_buffer = [10, 20, 30, 40, 50, 60], depth_buffer = [1, 0, 2, 0]\<rparr>
     = [1, 0, 0, 0,  2, 0, 0, 0, 0, 0, 0, 0,  2, 0,  1, 0,  6, 0, 0, 0,  4, 0, 0, 0,
        10, 20, 30, 40, 50, 60,  1, 0, 2, 0]
   \<and> sizeof_NetworkFrame four_byte_alignment = 24
   \<and> sizeof_NetworkFrame natural_alignment = 32"
  using
    packet_layout [of "\<lparr>fp_frame_id = 1, fp_timestamp = 2, fp_width = 2, fp_height = 1,
         color_buffer = [10, 20, 30, 40, 50, 60], depth_buffer = [1, 0, 2, 0]\<rparr>"
        four_byte_alignment
        "make_header \<lparr>fp_frame_id = 1, fp_timestamp = 2, fp_width = 2, fp_height = 1,
         color_buffer = [10, 20, 30, 40, 50, 60], depth_buffer = [1, 0, 2, 0]\<rparr>"]
    packet_layout [of "\<lparr>fp_frame_id = 1, fp_timestamp = 2, fp_width = 2, fp_height = 1,
         color_buffer = [10, 20, 30, 40, 50, 60], depth_buffer = [1, 0, 2, 0]\<rparr>"
        natural_alignment
        "make_header \<lparr>fp_frame_id = 1, fp_timestamp = 2, fp_width = 2, fp_height = 1,
         color_buffer = [10, 20, 30, 40, 50, 60], depth_buffer = [1, 0, 2, 0]\<rparr>"]
  by (simp add: sizeof_four_byte sizeof_natural natural_alignment_def make_header_def
      le_bytes_numeral)

subsection \<open>C3: the exit code after a device error\<close>

text \<open>
  Claim C3 says that an unrecoverable device error ends the process with a nonzero exit
  code. With no device connected \<open>pipe.start\<close> throws \<open>rs2::error\<close>; the handler of lines
  131-133 prints the message and falls through to \<open>close(sock); return 0;\<close>, so \<open>main\<close>
  returns 0. It does the same when \<open>wait_for_frames\<close> throws in the streaming loop.
\<close>

theorem device_error_exits_zero:
  "rpi_streamer_main natural_alignment
     \<lparr>argc = 2, computer_ip = ''192.168.1.20'', socket_result = 3,
      pipe_start = Throws ''No device connected'', first_steady_now = 0, device = []\<rparr>
   = ([Cerr ''RealSense error: No device connected'', Close_socket], Some 0)
   \<and> rpi_streamer_main natural_alignment
       \<lparr>argc = 2, computer_ip = ''192.168.1.20'', socket_result = 3,
        pipe_start = Returns (), first_steady_now = 0,
        device = replicate 30 (answer pixel_frameset 1000 0 50)
                   @ [\<lparr>wait_for_frames = Throws ''Frame did not arrive in time'',
                       high_resolution_now = 0, sendto_result = 0, steady_now = 0\<rparr>]\<rparr>
   = ([Cout ''RealSense started - streaming to 192.168.1.20:9999'',
       Cerr ''RealSense error: Frame did not arrive in time'', Close_socket], Some 0)"
proof -
  have "stabilization 30
          (replicate 30 (answer pixel_frameset 1000 0 50)
             @ [\<lparr>wait_for_frames = Throws ''Frame did not arrive in time'',
                 high_resolution_now = 0, sendto_result = 0, steady_now = 0\<rparr>])
        = Finished [\<lparr>wait_for_frames = Throws ''Frame did not arrive in time'',
                     high_resolution_now = 0, sendto_result = 0, steady_now = 0\<rparr>]"
    by (rule stabilization_drops) (simp_all add: answer_def)
  then show ?thesis
    by (simp add: rpi_streamer_main_def catch_rs2_def streaming_def started_def show_eval
        stream_iteration_def prepare_frame_def)
qed

subsection \<open>C4: decoding what was encoded\<close>

text \<open>
  Claim C4 says that decoding an encoded frame pair gives the frame pair back whenever
  header and payload fit the maximum payload. A packet built under natural alignment
  carries a 32-byte header; the decoder of the 24-byte wire format reads the sizes from
  the wrong place and rejects it. Without padding, a width that does not fit the 16-bit
  field of the header (70000, of a frame of height 0 with empty buffers) comes back
  reduced modulo 65536.
\<close>

theorem decode_encode_counterexample:
  "sizeof_NetworkFrame natural_alignment + length [10, 20, 30, 40, 50, 60 :: byte]
       + length [1, 0, 2, 0 :: byte] \<le> 65507
   \<and> decode (encode natural_alignment
        \<lparr>fp_frame_id = 1, fp_timestamp = 2, fp_width = 2, fp_height = 1,
         color_buffer = [10, 20, 30, 40, 50, 60], depth_buffer = [1, 0, 2, 0]\<rparr>)
     = Inl CorruptPacket
   \<and> sizeof_NetworkFrame four_byte_alignment + length ([] :: byte list)
       + length ([] :: byte list) \<le> 65507
   \<and> decode (encode four_byte_alignment
        \<lparr>fp_frame_id = 1, fp_timestamp = 2, fp_width = 70000, fp_height = 0,
         color_buffer = [], depth_buffer = []\<rparr>)
     = Inr \<lparr>fp_frame_id = 1, fp_timestamp = 2, fp_width = 4464, fp_height = 0,
         color_buffer = [], depth_buffer = []\<rparr>"
  by (simp add: sizeof_natural sizeof_four_byte decode_def layout_defs packet_defs Let_def upt_rec)

text \<open>
  Claim C4, as amended. For every frame pair whose header and payload fit the maximum
  payload of 65507 bytes, decoding the encoded packet gives the frame pair back, byte
  for byte, if and only if the platform lays \<open>NetworkFrame\<close> out without padding
  (\<open>sizeof(NetworkFrame) = 24\<close>) and the width and the height of the frame pair fit 16
  bits. Under natural alignment, the layout of the Raspberry Pi, the header takes 32
  bytes and decoding gives the frame pair back for no such frame pair.
\<close>

theorem decode_encode_round_trip:
  assumes "sizeof_NetworkFrame P + length (color_buffer f) + length (depth_buffer f) \<le> 65507"
  shows "(decode (encode P f) = Inr f)
           = (sizeof_NetworkFrame P = 24
              \<and> 0 \<le> fp_width f \<and> fp_width f < 65536
              \<and> 0 \<le> fp_height f \<and> fp_height f < 65536)
       \<and> (alignof P = size_of \<longrightarrow> decode (encode P f) \<noteq> Inr f)"
proof -
  have iff: "(decode (encode P f) = Inr f)
           = (sizeof_NetworkFrame P = 24
              \<and> 0 \<le> fp_width f \<and> fp_width f < 65536
              \<and> 0 \<le> fp_height f \<and> fp_height f < 65536)"
  proof
    assume r: "decode (encode P f) = Inr f"
    from assms r have "sizeof_NetworkFrame P = 24" by (rule round_trip_needs_24)
    with round_trip_needs_16_bits [OF assms r]
    show "sizeof_NetworkFrame P = 24
              \<and> 0 \<le> fp_width f \<and> fp_width f < 65536
              \<and> 0 \<le> fp_height f \<and> fp_height f < 65536" by simp
  next
    assume "sizeof_NetworkFrame P = 24
              \<and> 0 \<le> fp_width f \<and> fp_width f < 65536
              \<and> 0 \<le> fp_height f \<and> fp_height f < 65536"
    with assms show "decode (encode P f) = Inr f"
      by (intro round_trip_unpadded) simp_all
  qed
  have "decode (encode P f) \<noteq> Inr f" if "alignof P = size_of"
  proof -
    from that have "sizeof_NetworkFrame P = 32" by (rule sizeof_NetworkFrame_natural)
    with iff show ?thesis by simp
  qed
  with iff show ?thesis by blast
qed

theorem decode_encode_round_trip_witness:
  "decode (encode four_byte_alignment
        \<lparr>fp_frame_id = 1, fp_timestamp = 2, fp_width = 2, fp_height = 1,
         color_buffer = [10, 20, 30, 40, 50, 60], depth_buffer = [1, 0, 2, 0]\<rparr>)
     = Inr \<lparr>fp_frame_id = 1, fp_timestamp = 2, fp_width = 2, fp_height = 1,
         color_buffer = [10, 20, 30, 40, 50, 60], depth_buffer = [1, 0, 2, 0]\<rparr>
   \<and> decode (encode natural_alignment
        \<lparr>fp_frame_id = 1, fp_timestamp = 2, fp_width = 2, fp_height = 1,
         color_buffer = [10, 20, 30, 40, 50, 60], depth_buffer = [1, 0, 2, 0]\<rparr>)
     \<noteq> Inr \<lparr>fp_frame_id = 1, fp_timestamp = 2, fp_width = 2, fp_height = 1,
         color_buffer = [10, 20, 30, 40, 50, 60], depth_buffer = [1, 0, 2, 0]\<rparr>"
proof -
  have n: "alignof natural_alignment = size_of"
    by (simp add: natural_alignment_def)
  from decode_encode_round_trip [of four_byte_alignment
        "\<lparr>fp_frame_id = 1, fp_timestamp = 2, fp_width = 2, fp_height = 1,
         color_buffer = [10, 20, 30, 40, 50, 60], depth_buffer = [1, 0, 2, 0]\<rparr>"]
    decode_encode_round_trip [of natural_alignment
        "\<lparr>fp_frame_id = 1, fp_timestamp = 2, fp_width = 2, fp_height = 1,
         color_buffer = [10, 20, 30, 40, 50, 60], depth_buffer = [1, 0, 2, 0]\<rparr>"]
  show ?thesis by (simp add: sizeof_four_byte sizeof_natural n)
qed

subsection \<open>C5: frame ids and timestamps of consecutive frames\<close>

text \<open>
  Claim C5 says that the timestamp strictly increases from one acquired frame to the
  next. The timestamp is the reading of \<open>high_resolution_clock\<close> taken in the pass; when
  that clock is set back between two passes (2000, then 1500) the second header carries
  the smaller timestamp.
\<close>

theorem timestamp_counterexample:
  "prepare_frame \<lparr>frame_count = 0, last_fps_time = 0, fps_counter = 0\<rparr>
       (answer small_frameset 2000 10 100)
     = Inr (Some (frame_pair 0 2000 small_color small_depth,
                  \<lparr>frame_count = 1, last_fps_time = 0, fps_counter = 0\<rparr>))
   \<and> fst (projr (stream_iteration natural_alignment
                    \<lparr>frame_count = 0, last_fps_time = 0, fps_counter = 0\<rparr>
                    (answer small_frameset 2000 10 100)))
     = \<lparr>frame_count = 1, last_fps_time = 0, fps_counter = 1\<rparr>
   \<and> prepare_frame \<lparr>frame_count = 1, last_fps_time = 0, fps_counter = 1\<rparr>
       (answer small_frameset 1500 10 200)
     = Inr (Some (frame_pair 1 1500 small_color small_depth,
                  \<lparr>frame_count = 2, last_fps_time = 0, fps_counter = 1\<rparr>))
   \<and> timestamp (make_header (frame_pair 0 2000 small_color small_depth)) = 2000
   \<and> timestamp (make_header (frame_pair 1 1500 small_color small_depth)) = 1500
   \<and> \<not> timestamp (make_header (frame_pair 0 2000 small_color small_depth))
        < timestamp (make_header (frame_pair 1 1500 small_color small_depth))"
  by (simp add: small_frameset_def answer_def loop_defs Let_def make_header_def total_size_def
      frame_pair_def small_color_def small_depth_def sizeof_natural)

text \<open>
  Claim C5, as amended. For two consecutive passes that each acquire a complete frame
  pair, the \<open>frame_id\<close> of the second header is that of the first plus 1 in 32-bit
  arithmetic (it wraps from 4294967295 to 0), and each timestamp is the clock reading of
  its pass as a 64-bit value; the timestamp strictly increases whenever the two readings
  do and lie in the range of \<open>uint64_t\<close>.
\<close>

theorem consecutive_headers:
  assumes "prepare_frame s e1 = Inr (Some (f1, s1))"
    and "stream_iteration P s e1 = Inr (s', out)"
    and "prepare_frame s' e2 = Inr (Some (f2, s2))"
  shows "frame_id (make_header f2) = frame_id (make_header f1) + 1
       \<and> unat (frame_id (make_header f2)) = (unat (frame_id (make_header f1)) + 1) mod 2 ^ 32
       \<and> timestamp (make_header f1) = word_of_int (high_resolution_now e1)
       \<and> timestamp (make_header f2) = word_of_int (high_resolution_now e2)
       \<and> (0 \<le> high_resolution_now e1 \<and> high_resolution_now e1 < high_resolution_now e2
            \<and> high_resolution_now e2 < 2 ^ 64
          \<longrightarrow> timestamp (make_header f1) < timestamp (make_header f2))"
proof -
  note d1 = prepare_frame_SomeD [OF assms(1)] and d2 = prepare_frame_SomeD [OF assms(3)]
  have "frame_count s' = frame_count s + 1"
  proof (cases "total_size P (make_header f1) \<le> 65507")
    case True
    from stream_iteration_sent [OF assms(1) True] assms(2) d1 show ?thesis
      by (auto simp: fps_monitoring_frame_count)
  next
    case False
    then have "65507 < total_size P (make_header f1)" by simp
    from stream_iteration_oversize [OF assms(1) this] assms(2) d1 show ?thesis by auto
  qed
  with d1 d2 have id: "frame_id (make_header f2) = frame_id (make_header f1) + 1"
    by (simp add: make_header_def)
  have u: "unat (frame_id (make_header f2)) = (unat (frame_id (make_header f1)) + 1) mod 2 ^ 32"
    by (simp add: id unat_word_ariths)
  have t1: "timestamp (make_header f1) = word_of_int (high_resolution_now e1)"
    and t2: "timestamp (make_header f2) = word_of_int (high_resolution_now e2)"
    using d1 d2 by (simp_all add: make_header_def)
  have mono: "timestamp (make_header f1) < timestamp (make_header f2)"
    if "0 \<le> high_resolution_now e1" "high_resolution_now e1 < high_resolution_now e2"
       "high_resolution_now e2 < 2 ^ 64"
  proof -
    have "uint (word_of_int (high_resolution_now e1) :: 64 word) = high_resolution_now e1"
      using that by (simp add: uint_word_of_int take_bit_eq_mod)
    moreover have "uint (word_of_int (high_resolution_now e2) :: 64 word) = high_resolution_now e2"
      using that by (simp add: uint_word_of_int take_bit_eq_mod)
    ultimately show ?thesis using that by (simp add: t1 t2 word_less_def)
  qed
  from id u t1 t2 mono show ?thesis by blast
qed

theorem consecutive_headers_witness:
  "frame_id (make_header (frame_pair 1 2500 small_color small_depth))
     = frame_id (make_header (frame_pair 0 2000 small_color small_depth)) + 1
   \<and> timestamp (make_header (frame_pair 0 2000 small_color small_depth))
       < timestamp (make_header (frame_pair 1 2500 small_color small_depth))"
  using consecutive_headers [of "\<lparr>frame_count = 0, last_fps_time = 0, fps_counter = 0\<rparr>"
      "answer small_frameset 2000 10 100" "frame_pair 0 2000 small_color small_depth"
      "\<lparr>frame_count = 1, last_fps_time = 0, fps_counter = 0\<rparr>" natural_alignment
      "\<lparr>frame_count = 1, last_fps_time = 0, fps_counter = 1\<rparr>"
      "[Sendto (encode natural_alignment (frame_pair 0 2000 small_color small_depth))]"
      "answer small_frameset 2500 10 200" "frame_pair 1 2500 small_color small_depth"
      "\<lparr>frame_count = 2, last_fps_time = 0, fps_counter = 1\<rparr>"]
  by (simp add: small_frameset_def answer_def loop_defs Let_def make_header_def total_size_def
      frame_pair_def small_color_def small_depth_def sizeof_natural)

subsection \<open>C6: a failed send\<close>

text \<open>
  Claim C6. When \<open>sendto\<close> fails (its result is negative) the failure is not fatal:
  the pass has made its single call of \<open>sendto\<close> for the packet and makes no other, it
  prints the diagnostic with \<open>perror\<close>, and the loop goes on with the next answer of the
  device from a state whose frame counter is stepped by one.
\<close>

theorem send_failure_is_not_fatal:
  assumes "prepare_frame s e = Inr (Some (f, s1))"
    and "total_size P (make_header f) \<le> 65507"
    and "sendto_result e < 0"
  shows "stream_iteration P s e =
           Inr (fst (fps_monitoring s1 (steady_now e) (total_size P (make_header f))),
                [Sendto (encode P f), Perror ''sendto'']
                  @ snd (fps_monitoring s1 (steady_now e) (total_size P (make_header f))))
       \<and> (\<forall>ev \<in> set (snd (fps_monitoring s1 (steady_now e) (total_size P (make_header f)))).
             \<exists>line. ev = Cout line)
       \<and> frame_count (fst (fps_monitoring s1 (steady_now e) (total_size P (make_header f))))
           = frame_count s + 1
       \<and> stream_loop P s (e # es) =
           (case stream_loop P
                   (fst (fps_monitoring s1 (steady_now e) (total_size P (make_header f)))) es of
              (out, r, s') \<Rightarrow>
                ([Sendto (encode P f), Perror ''sendto'']
                   @ snd (fps_monitoring s1 (steady_now e) (total_size P (make_header f)))
                   @ out, r, s'))"
proof -
  let ?m = "fps_monitoring s1 (steady_now e) (total_size P (make_header f))"
  have it: "stream_iteration P s e =
              Inr (fst ?m, [Sendto (encode P f), Perror ''sendto''] @ snd ?m)"
    using stream_iteration_sent [OF assms(1,2)] assms(3) by (simp add: send_packet_def)
  have ev: "\<forall>ev \<in> set (snd ?m). \<exists>line. ev = Cout line"
    using fps_monitoring_events by blast
  have fc: "frame_count (fst ?m) = frame_count s + 1"
    using prepare_frame_SomeD [OF assms(1)] by (simp add: fps_monitoring_frame_count)
  have lp: "stream_loop P s (e # es) =
           (case stream_loop P (fst ?m) es of
              (out, r, s') \<Rightarrow>
                ([Sendto (encode P f), Perror ''sendto''] @ snd ?m @ out, r, s'))"
    by (simp add: it split: prod.splits)
  from it ev fc lp show ?thesis by blast
qed

theorem send_failure_is_not_fatal_witness:
  "stream_loop four_byte_alignment \<lparr>frame_count = 0, last_fps_time = 0, fps_counter = 0\<rparr>
     [answer small_frameset 2000 (- 1) 100, answer pixel_frameset 2500 5 200]
   = ([Sendto [0, 0, 0, 0,  208, 7, 0, 0, 0, 0, 0, 0,  2, 0,  1, 0,  6, 0, 0, 0,  4, 0, 0, 0,
               10, 20, 30, 40, 50, 60,  1, 0, 2, 0],
       Perror ''sendto'',
       Sendto [1, 0, 0, 0,  196, 9, 0, 0, 0, 0, 0, 0,  1, 0,  1, 0,  3, 0, 0, 0,  2, 0, 0, 0,
               10, 20, 30,  1, 0]],
      None, \<lparr>frame_count = 2, last_fps_time = 0, fps_counter = 2\<rparr>)"
  using send_failure_is_not_fatal [of "\<lparr>frame_count = 0, last_fps_time = 0, fps_counter = 0\<rparr>"
      "answer small_frameset 2000 (- 1) 100" "frame_pair 0 2000 small_color small_depth"
      "\<lparr>frame_count = 1, last_fps_time = 0, fps_counter = 0\<rparr>" four_byte_alignment
      "[answer pixel_frameset 2500 5 200]"]
  by (simp add: example_defs loop_defs Let_def
      layout_defs packet_defs upt_rec)

subsection \<open>C7: stabilization\<close>



subsection \<open>C8: the rate report\<close>

text \<open>
  Claim C8 says that the monitor counts over a sliding one-second window, that 30 events
  spread over exactly one second are reported as about 30, and that the report gives
  bytes per second besides frames per second. The line printed holds the count and the
  size in KB of the packet of the reporting pass only: two windows of one second in
  which 3058 and 68 bytes were sent print the same line. Two packets sent two seconds
  apart are reported as a count of 2: the window is the time since the last report, not
  one second. And 30 packets that come 0, 1/30, ..., 29/30 s after the start of the
  window print nothing.
\<close>

theorem fps_report_counterexample:
  "cout_lines (fst (stream_loop four_byte_alignment
       \<lparr>frame_count = 0, last_fps_time = 0, fps_counter = 0\<rparr>
       [answer medium_frameset 0 0 500000000, answer small_frameset 0 0 1000000000]))
     = [''Streaming FPS: 2 | Frame size: 0KB'']
   \<and> bytes_sent (fst (stream_loop four_byte_alignment
       \<lparr>frame_count = 0, last_fps_time = 0, fps_counter = 0\<rparr>
       [answer medium_frameset 0 0 500000000, answer small_frameset 0 0 1000000000])) = 3058
   \<and> cout_lines (fst (stream_loop four_byte_alignment
       \<lparr>frame_count = 0, last_fps_time = 0, fps_counter = 0\<rparr>
       [answer small_frameset 0 0 500000000, answer small_frameset 0 0 1000000000]))
     = [''Streaming FPS: 2 | Frame size: 0KB'']
   \<and> bytes_sent (fst (stream_loop four_byte_alignment
       \<lparr>frame_count = 0, last_fps_time = 0, fps_counter = 0\<rparr>
       [answer small_frameset 0 0 500000000, answer small_frameset 0 0 1000000000])) = 68
   \<and> cout_lines (fst (stream_loop four_byte_alignment
       \<lparr>frame_count = 0, last_fps_time = 0, fps_counter = 0\<rparr>
       [answer small_frameset 0 0 500000000, answer small_frameset 0 0 2500000000]))
     = [''Streaming FPS: 2 | Frame size: 0KB'']
   \<and> cout_lines (fst (stream_loop four_byte_alignment
       \<lparr>frame_count = 0, last_fps_time = 0, fps_counter = 0\<rparr>
       (map (\<lambda>k. answer small_frameset 0 0 (int k * 1000000000 div 30)) [0..<30])))
     = []"
proof -
  have "\<forall>e\<in>set (map (\<lambda>k. answer small_frameset 0 0 (int k * 1000000000 div 30)) [0..<30]).
          sent_size four_byte_alignment e \<noteq> None
          \<and> int64 (steady_now e
                    - last_fps_time \<lparr>frame_count = 0, last_fps_time = 0, fps_counter = 0\<rparr>)
              < 1000000000"
  proof
    fix e
    assume "e \<in> set (map (\<lambda>k. answer small_frameset 0 0 (int k * 1000000000 div 30)) [0..<30])"
    then obtain k where k: "k < 30"
      and e: "e = answer small_frameset 0 0 (int k * 1000000000 div 30)"
      by auto
    have "0 \<le> int k * 1000000000 div 30" by simp
    moreover have "int k * 1000000000 div 30 < 1000000000" using k by simp
    ultimately have "int64 (int k * 1000000000 div 30) < 1000000000"
      by (simp add: int64_id)
    then show "sent_size four_byte_alignment e \<noteq> None
          \<and> int64 (steady_now e
                    - last_fps_time \<lparr>frame_count = 0, last_fps_time = 0, fps_counter = 0\<rparr>)
              < 1000000000"
      by (simp add: e sent_size_small) (simp add: answer_def)
  qed
  then have silent: "cout_lines (fst (stream_loop four_byte_alignment
       \<lparr>frame_count = 0, last_fps_time = 0, fps_counter = 0\<rparr>
       (map (\<lambda>k. answer small_frameset 0 0 (int k * 1000000000 div 30)) [0..<30]))) = []"
    using window_open by blast
  show ?thesis
    unfolding silent
    by (simp add: example_defs loop_defs layout_defs packet_defs Let_def upt_rec
        fps_line_def show_eval)
qed

text \<open>
  Claim C8, as amended. The rate monitor counts the packets handed to \<open>sendto\<close> since
  its last report and reports once per window without pausing the streaming loop: at
  the first packet at which at least one whole second of the steady clock has passed
  since the last report it prints one line with the count and the size in KB of that
  packet, sets the count to 0 and starts the next window at that reading, so that the
  windows follow each other and last at least one second each; they do not slide. Fed
  30 packets uniformly spread across exactly one second it reports approximately 30: a
  count of 30, at the 30th packet, when the packets come 1/30, 2/30, ..., 30/30 s after
  the start of the window; when they come 0, 1/30, ..., 29/30 s after it nothing is
  printed for them and a packet at 30/30 s is reported with a count of 31. The report
  includes frames per second and no bytes per second.
\<close>

theorem fps_report_closes_window:
  "((\<forall>e\<in>set es. sent_size P e \<noteq> None
                 \<and> int64 (steady_now e - last_fps_time s) < 1000000000)
     \<and> sent_size P e = Some n
     \<and> 1000000000 \<le> int64 (steady_now e - last_fps_time s)
    \<longrightarrow> cout_lines (fst (stream_loop P s es)) = []
        \<and> cout_lines (fst (stream_loop P s (es @ [e])))
            = [fps_line (fps_counter s + int (length es) + 1) n]
        \<and> fst (snd (stream_loop P s (es @ [e]))) = None
        \<and> fps_counter (snd (snd (stream_loop P s (es @ [e])))) = 0
        \<and> last_fps_time (snd (snd (stream_loop P s (es @ [e])))) = steady_now e)
   \<and> fps_line c m =
       ''Streaming FPS: '' @ show_int c @ '' | Frame size: '' @ show_nat (m div 1024) @ ''KB''
   \<and> (fps_counter s = 0 \<and> length xs = 30
       \<and> (\<forall>k<30. sent_size P (xs ! k) \<noteq> None
              \<and> steady_now (xs ! k) = last_fps_time s + (int k + 1) * 1000000000 div 30)
      \<longrightarrow> cout_lines (fst (stream_loop P s xs)) = [fps_line 30 (the (sent_size P (xs ! 29)))]
          \<and> cout_lines (fst (stream_loop P s (take 29 xs))) = [])
   \<and> (fps_counter s = 0 \<and> length ys = 31
       \<and> (\<forall>k<31. sent_size P (ys ! k) \<noteq> None
              \<and> steady_now (ys ! k) = last_fps_time s + int k * 1000000000 div 30)
      \<longrightarrow> cout_lines (fst (stream_loop P s ys)) = [fps_line 31 (the (sent_size P (ys ! 30)))]
          \<and> cout_lines (fst (stream_loop P s (take 30 ys))) = [])"
  using window_open [of es P s] window_closes [of es P s e n]
    uniform_thirty [of s xs P] uniform_thirty_one [of s ys P]
  by (simp add: fps_line_def)

theorem fps_report_closes_window_witness:
  "cout_lines (fst (stream_loop four_byte_alignment
       \<lparr>frame_count = 0, last_fps_time = 0, fps_counter = 0\<rparr>
       [answer small_frameset 0 0 500000000, answer small_frameset 0 (- 1) 1000000000]))
     = [''Streaming FPS: 2 | Frame size: 0KB'']
   \<and> cout_lines (fst (stream_loop four_byte_alignment
       \<lparr>frame_count = 0, last_fps_time = 0, fps_counter = 0\<rparr>
       (map (\<lambda>k. answer small_frameset 0 0 ((int k + 1) * 1000000000 div 30)) [0..<30])))
     = [''Streaming FPS: 30 | Frame size: 0KB'']
   \<and> cout_lines (fst (stream_loop four_byte_alignment
       \<lparr>frame_count = 0, last_fps_time = 0, fps_counter = 0\<rparr>
       (map (\<lambda>k. answer small_frameset 0 0 (int k * 1000000000 div 30)) [0..<31])))
     = [''Streaming FPS: 31 | Frame size: 0KB'']"
proof -
  let ?s = "\<lparr>frame_count = 0, last_fps_time = 0, fps_counter = 0\<rparr>"
  let ?xs = "map (\<lambda>k. answer small_frameset 0 0 ((int k + 1) * 1000000000 div 30)) [0..<30]"
  let ?ys = "map (\<lambda>k. answer small_frameset 0 0 (int k * 1000000000 div 30)) [0..<31]"
  have early: "\<forall>e\<in>set [answer small_frameset 0 0 500000000].
      sent_size four_byte_alignment e \<noteq> None
      \<and> int64 (steady_now e - last_fps_time ?s) < 1000000000"
    by (simp add: sent_size_small) (simp add: answer_def int64_def)
  have late: "1000000000
      \<le> int64 (steady_now (answer small_frameset 0 (- 1) 1000000000) - last_fps_time ?s)"
    by (simp add: answer_def int64_def)
  have xs: "fps_counter ?s = 0 \<and> length ?xs = 30
      \<and> (\<forall>k<30. sent_size four_byte_alignment (?xs ! k) \<noteq> None
             \<and> steady_now (?xs ! k)
                 = last_fps_time ?s + (int k + 1) * 1000000000 div 30)"
    by (simp add: sent_size_small) (simp add: answer_def)
  have ys: "fps_counter ?s = 0 \<and> length ?ys = 31
      \<and> (\<forall>k<31. sent_size four_byte_alignment (?ys ! k) \<noteq> None
             \<and> steady_now (?ys ! k) = last_fps_time ?s + int k * 1000000000 div 30)"
    by (simp add: sent_size_small) (simp add: answer_def)
  have lines: "fps_line 2 34 = ''Streaming FPS: 2 | Frame size: 0KB''"
    "fps_line 31 34 = ''Streaming FPS: 31 | Frame size: 0KB''"
    by (simp_all add: fps_line_def show_eval)
  have last: "sent_size four_byte_alignment (?xs ! 29) = Some 34"
    "sent_size four_byte_alignment (?ys ! 30) = Some 34"
    by (simp_all add: sent_size_small)
  note t = fps_report_closes_window
    [of "[answer small_frameset 0 0 500000000]" four_byte_alignment ?s
        "answer small_frameset 0 (- 1) 1000000000" 34 30 34 ?xs ?ys]
  have a: "cout_lines (fst (stream_loop four_byte_alignment ?s
             ([answer small_frameset 0 0 500000000]
                @ [answer small_frameset 0 (- 1) 1000000000])))
           = [fps_line (fps_counter ?s + int (length [answer small_frameset 0 0 500000000]) + 1)
                34]"
    using t early late sent_size_small [of 0 "- 1" 1000000000] by blast
  have b: "cout_lines (fst (stream_loop four_byte_alignment ?s ?xs))
           = [fps_line 30 (the (sent_size four_byte_alignment (?xs ! 29)))]"
    using t xs by blast
  have c: "cout_lines (fst (stream_loop four_byte_alignment ?s ?ys))
           = [fps_line 31 (the (sent_size four_byte_alignment (?ys ! 30)))]"
    using t ys by blast
  from a have "cout_lines (fst (stream_loop four_byte_alignment ?s
             [answer small_frameset 0 0 500000000,
              answer small_frameset 0 (- 1) 1000000000]))
           = [''Streaming FPS: 2 | Frame size: 0KB'']"
    by (simp add: lines del: stream_loop.simps)
  moreover from b have "cout_lines (fst (stream_loop four_byte_alignment ?s ?xs))
           = [''Streaming FPS: 30 | Frame size: 0KB'']"
    by (simp only: last option.sel fps_line_30)
  moreover from c have "cout_lines (fst (stream_loop four_byte_alignment ?s ?ys))
           = [''Streaming FPS: 31 | Frame size: 0KB'']"
    by (simp only: last option.sel lines)
  ultimately show ?thesis by blast
qed

subsection \<open>C9: the names of the saved files\<close>

text \<open>
  Claim C9. In a pass of the capture loop that gets its frameset, the frame number is
  the previous one plus 1 and the timestamp is the millisecond reading taken before the
  wait; every file written for the frameset is named by \<open>create_filename\<close> with that
  same frame number and timestamp. For a colour and a depth frame these are the colour
  PNG, the colour metadata CSV, the depth PNG, the colourized depth PNG and the depth
  metadata CSV. The name holds the frame number padded with zeros, six characters long
  for every frame number below 1000000, followed by the timestamp.
\<close>

theorem frameset_files_share_number_and_timestamp:
  assumes "duration_cast_milliseconds (current_time e - start) < 10000"
    and "wait_frames e = Returns frames"
  shows "capture_loop start n (e # es) =
           (case capture_loop start (n + 1) es of
              (out, r) \<Rightarrow>
                (concat (map (save_frame (n + 1) (system_clock_ms e)) frames)
                   @ (if (n + 1) mod 30 = 0
                      then [Progress_update (n + 1)
                              (duration_cast_milliseconds (current_time e - start))]
                      else [])
                   @ out, r))
       \<and> (\<forall>fr\<in>set frames. \<forall>ev\<in>set (save_frame (n + 1) (system_clock_ms e) fr).
             \<exists>dir stream ext.
               ev = Stbi_write_png (create_filename dir stream (n + 1) (system_clock_ms e) ext)
             \<or> ev = Metadata_to_csv (create_filename dir stream (n + 1) (system_clock_ms e) ext))
       \<and> concat (map (save_frame (n + 1) (system_clock_ms e)) [color_frame, depth_frame]) =
           [Stbi_write_png (create_filename ''captured_data/rgb'' ''color'' (n + 1)
                              (system_clock_ms e) ''.png''),
            Metadata_to_csv (create_filename ''captured_data/metadata'' ''color'' (n + 1)
                               (system_clock_ms e) ''_metadata.csv''),
            Stbi_write_png (create_filename ''captured_data/depth'' ''depth'' (n + 1)
                              (system_clock_ms e) ''.png''),
            Stbi_write_png (create_filename ''captured_data/depth'' ''depth_colorized'' (n + 1)
                              (system_clock_ms e) ''.png''),
            Metadata_to_csv (create_filename ''captured_data/metadata'' ''depth'' (n + 1)
                               (system_clock_ms e) ''_metadata.csv'')]
       \<and> create_filename dir stream (n + 1) (system_clock_ms e) ext =
           dir @ ''/frame_'' @ setw_setfill 6 CHR ''0'' (show_int (n + 1)) @ ''_''
             @ show_int (system_clock_ms e) @ ''_'' @ stream @ ext
       \<and> (0 \<le> n + 1 \<and> n + 1 < 1000000 \<longrightarrow>
            length (setw_setfill 6 CHR ''0'' (show_int (n + 1))) = 6)"
proof -
  have loop: "capture_loop start n (e # es) =
           (case capture_loop start (n + 1) es of
              (out, r) \<Rightarrow>
                (concat (map (save_frame (n + 1) (system_clock_ms e)) frames)
                   @ (if (n + 1) mod 30 = 0
                      then [Progress_update (n + 1)
                              (duration_cast_milliseconds (current_time e - start))]
                      else [])
                   @ out, r))"
    using assms by (simp add: capture_iteration_def Let_def split: prod.splits)
  have five: "concat (map (save_frame (n + 1) (system_clock_ms e)) [color_frame, depth_frame]) =
           [Stbi_write_png (create_filename ''captured_data/rgb'' ''color'' (n + 1)
                              (system_clock_ms e) ''.png''),
            Metadata_to_csv (create_filename ''captured_data/metadata'' ''color'' (n + 1)
                               (system_clock_ms e) ''_metadata.csv''),
            Stbi_write_png (create_filename ''captured_data/depth'' ''depth'' (n + 1)
                              (system_clock_ms e) ''.png''),
            Stbi_write_png (create_filename ''captured_data/depth'' ''depth_colorized'' (n + 1)
                              (system_clock_ms e) ''.png''),
            Metadata_to_csv (create_filename ''captured_data/metadata'' ''depth'' (n + 1)
                               (system_clock_ms e) ''_metadata.csv'')]"
    by (simp add: save_frame_def color_frame_def depth_frame_def)
  have name: "create_filename dir stream (n + 1) (system_clock_ms e) ext =
           dir @ ''/frame_'' @ setw_setfill 6 CHR ''0'' (show_int (n + 1)) @ ''_''
             @ show_int (system_clock_ms e) @ ''_'' @ stream @ ext"
    by (simp add: create_filename_def)
  from loop five name save_frame_names frame_number_six_digits show ?thesis by blast
qed

theorem frameset_files_share_number_and_timestamp_witness:
  "capture_loop 0 41 [capture_answer 5000000000 1700000000123, capture_answer 10000000000 0]
   = ([Stbi_write_png ''captured_data/rgb/frame_000042_1700000000123_color.png'',
       Metadata_to_csv ''captured_data/metadata/frame_000042_1700000000123_color_metadata.csv'',
       Stbi_write_png ''captured_data/depth/frame_000042_1700000000123_depth.png'',
       Stbi_write_png ''captured_data/depth/frame_000042_1700000000123_depth_colorized.png'',
       Metadata_to_csv ''captured_data/metadata/frame_000042_1700000000123_depth_metadata.csv''],
      Finished 42)"
  using frameset_files_share_number_and_timestamp
    [of "capture_answer 5000000000 1700000000123" 0 "[color_frame, depth_frame]" 41
        "[capture_answer 10000000000 0]"]
  by (simp add: save_defs)

subsection \<open>C10: framesets that lack a frame\<close>

text \<open>
  Claim C10. A frameset that lacks the colour frame or the depth frame is skipped before
  the frame counter is read or stepped: the pass builds no frame pair, leaves the whole
  state (the counter included) as it was and does nothing observable, so taking such a
  frameset out of a run, wherever it stands, changes neither what is sent nor any
  \<open>frame_id\<close> of a later packet.
\<close>

theorem incomplete_frameset_skipped:
  assumes "wait_for_frames e = Returns fs"
    and "get_color_frame fs = None \<or> get_depth_frame fs = None"
  shows "prepare_frame s e = Inr None
       \<and> stream_iteration P s e = Inr (s, [])
       \<and> stream_loop P s0 (before @ e # after) = stream_loop P s0 (before @ after)"
proof -
  have skip: "prepare_frame s' e = Inr None" for s'
    using assms by (rule prepare_frame_skip)
  have it: "stream_iteration P s' e = Inr (s', [])" for s'
    by (simp add: stream_iteration_def skip)
  have step: "stream_loop P s' (e # after) = stream_loop P s' after" for s'
    by (simp add: it split: prod.splits)
  have "stream_loop P s0 (before @ e # after) = stream_loop P s0 (before @ after)"
    by (simp only: stream_loop_append [of P s0 before] step)
  with skip it show ?thesis by simp
qed

theorem incomplete_frameset_skipped_witness:
  "stream_loop four_byte_alignment \<lparr>frame_count = 0, last_fps_time = 0, fps_counter = 0\<rparr>
     [answer small_frameset 2000 0 100, answer color_only_frameset 2100 0 150,
      answer pixel_frameset 2500 0 200]
   = ([Sendto [0, 0, 0, 0,  208, 7, 0, 0, 0, 0, 0, 0,  2, 0,  1, 0,  6, 0, 0, 0,  4, 0, 0, 0,
               10, 20, 30, 40, 50, 60,  1, 0, 2, 0],
       Sendto [1, 0, 0, 0,  196, 9, 0, 0, 0, 0, 0, 0,  1, 0,  1, 0,  3, 0, 0, 0,  2, 0, 0, 0,
               10, 20, 30,  1, 0]],
      None, \<lparr>frame_count = 2, last_fps_time = 0, fps_counter = 2\<rparr>)"
  using incomplete_frameset_skipped
    [of "answer color_only_frameset 2100 0 150" color_only_frameset
        "\<lparr>frame_count = 1, last_fps_time = 0, fps_counter = 1\<rparr>" four_byte_alignment
        "\<lparr>frame_count = 0, last_fps_time = 0, fps_counter = 0\<rparr>"
        "[answer small_frameset 2000 0 100]" "[answer pixel_frameset 2500 0 200]"]
  by (simp add: example_defs color_only_frameset_def loop_defs layout_defs packet_defs Let_def
      upt_rec)

end
